theory Spec2Isabelle
  imports Main "HOL-Library.Word" "HOL-Library.Sublist"
begin

section \<open>JSON values and Python dictionaries\<close>

text \<open>
  The tool schemas, the tool arguments and the search results of the repository are
  Python values built from \<^verbatim>\<open>None\<close>, booleans, integers, floats, strings, lists and
  dictionaries with string keys.  A float is kept as the bit pattern of its IEEE double:
  no function of the repository computes with it.  A dictionary is an association list
  in insertion order; Python keeps one entry per key, which \<open>wf_json\<close> states.  The
  schemas arrive from the protocol layer as decoded JSON, so they are trees: no
  dictionary object occurs twice in a schema.
\<close>

datatype json =
    JNull
  | JBool bool
  | JInt int
  | JFloat "64 word"
  | JStr string
  | JList "json list"
  | JDict "(string \<times> json) list"

type_synonym dict = "(string \<times> json) list"

text \<open>\<^verbatim>\<open>isinstance(v, dict)\<close> and \<^verbatim>\<open>isinstance(v, list)\<close>.\<close>

fun is_dict :: "json \<Rightarrow> bool" where
  "is_dict (JDict d) = True"
| "is_dict v = False"

fun is_list :: "json \<Rightarrow> bool" where
  "is_list (JList xs) = True"
| "is_list v = False"

text \<open>\<^verbatim>\<open>k in d\<close>, \<^verbatim>\<open>d.get(k)\<close>, \<^verbatim>\<open>d.pop(k, None)\<close> (the popped value is dropped by every
  caller) and \<^verbatim>\<open>d[k] = v\<close>.\<close>

definition dict_contains :: "dict \<Rightarrow> string \<Rightarrow> bool" where
  "dict_contains d k = (k \<in> set (map fst d))"

definition dict_get :: "dict \<Rightarrow> string \<Rightarrow> json option" where
  "dict_get d k = map_of d k"

definition dict_pop :: "dict \<Rightarrow> string \<Rightarrow> dict" where
  "dict_pop d k = filter (\<lambda>(k', v). k' \<noteq> k) d"

fun dict_set :: "dict \<Rightarrow> string \<Rightarrow> json \<Rightarrow> dict" where
  "dict_set [] k v = [(k, v)]"
| "dict_set ((k', v') # d) k v = (if k' = k then (k, v) # d else (k', v') # dict_set d k v)"

text \<open>Python's invariant on dictionaries: the keys of one dictionary are distinct.\<close>

fun wf_json :: "json \<Rightarrow> bool" where
  "wf_json (JList xs) = list_all wf_json xs"
| "wf_json (JDict d) = (distinct (map fst d) \<and> list_all (\<lambda>(k, v). wf_json v) d)"
| "wf_json v = True"

section \<open>The schema sanitizer: \<^verbatim>\<open>clean_schema\<close> (client_sse.py)\<close>

text \<open>
  \<^verbatim>\<open>
  def clean_schema(schema):
      if isinstance(schema, dict):
          schema.pop('title', None)
          if 'properties' in schema and isinstance(schema["properties"], dict):
              for key in schema['properties']:
                  schema['properties'][key] = clean_schema(schema["properties"][key])
      return schema
  \<close>
  The function mutates its argument and returns it; on a tree the returned value is all
  a caller can observe, so the model is a function on values.  The loop replaces the
  value of every key of \<^verbatim>\<open>schema['properties']\<close> by its cleaned form and neither adds
  nor removes a key, so it is a map over the entries.  The test of the inner \<^verbatim>\<open>if\<close>
  holds when the lookup of \<^verbatim>\<open>properties\<close> yields a dictionary.  No operation of the body can
  raise on a JSON value: \<^verbatim>\<open>pop\<close> has a default, the subscripts are guarded by the
  membership test, and the loop assigns to existing keys only.  The interpreter's
  recursion limit is not modelled.
\<close>

lemma dict_get_size:
  "dict_get d k = Some v \<Longrightarrow> size v < Suc (size_list (size_prod (\<lambda>_. 0) size) d)"
  by (induction d) (auto simp: dict_get_def split: if_splits)

lemma dict_get_pop_size:
  "dict_get (dict_pop d t) k = Some v \<Longrightarrow> size v < Suc (size_list (size_prod (\<lambda>_. 0) size) d)"
  by (induction d) (auto simp: dict_get_def dict_pop_def split: if_splits)

lemma entry_size:
  "(k, v) \<in> set d \<Longrightarrow> size v < Suc (size_list (size_prod (\<lambda>_. 0) size) d)"
  by (induction d) auto

function clean_schema :: "json \<Rightarrow> json" where
  "clean_schema (JDict schema) =
     (let schema1 = dict_pop schema ''title'' in
      case dict_get schema1 ''properties'' of
        Some (JDict properties) \<Rightarrow>
          JDict (dict_set schema1 ''properties''
                   (JDict (map (\<lambda>(key, sub). (key, clean_schema sub)) properties)))
      | _ \<Rightarrow> JDict schema1)"
| "clean_schema JNull = JNull"
| "clean_schema (JBool b) = JBool b"
| "clean_schema (JInt i) = JInt i"
| "clean_schema (JFloat x) = JFloat x"
| "clean_schema (JStr s) = JStr s"
| "clean_schema (JList xs) = JList xs"
  by pat_completeness auto
termination
proof (relation "measure size")
  show "wf (measure (size :: json \<Rightarrow> nat))" by simp
next
  fix schema schema1 :: dict and x2 :: json and properties :: dict
    and x :: "string \<times> json" and key :: string and sub :: json
  assume pop: "schema1 = dict_pop schema ''title''"
    and get: "dict_get schema1 ''properties'' = Some x2"
    and x2: "x2 = JDict properties"
    and mem: "x \<in> set properties"
    and x: "(key, sub) = x"
  from get pop x2 have "size (JDict properties) < Suc (size_list (size_prod (\<lambda>_. 0) size) schema)"
    using dict_get_pop_size by blast
  moreover from mem x have "size sub < Suc (size_list (size_prod (\<lambda>_. 0) size) properties)"
    using entry_size [of key sub properties] by simp
  ultimately show "(sub, JDict schema) \<in> measure size" by simp
qed

text \<open>The loop of the body as the assignments it makes, one for each key in turn.  On a
  dictionary, whose keys are distinct, it is the map over the entries that
  \<open>clean_schema\<close> uses (lemma \<open>assign_each_map\<close>).\<close>

fun assign_each :: "(json \<Rightarrow> json) \<Rightarrow> string list \<Rightarrow> dict \<Rightarrow> dict" where
  "assign_each f [] properties = properties"
| "assign_each f (key # keys) properties =
     assign_each f keys
       (case dict_get properties key of
          None \<Rightarrow> properties
        | Some sub \<Rightarrow> dict_set properties key (f sub))"

text \<open>What the claims about the sanitizer speak of: a \<^verbatim>\<open>title\<close> key at any depth of a
  value (\<open>has_title\<close>), and a \<^verbatim>\<open>title\<close> key at a level the sanitizer visits, which is
  the top level and every value of a \<^verbatim>\<open>properties\<close> dictionary of a visited level
  (\<open>has_schema_title\<close>).\<close>

fun has_title :: "json \<Rightarrow> bool" where
  "has_title (JDict d) = (dict_contains d ''title'' \<or> list_ex (\<lambda>(k, v). has_title v) d)"
| "has_title (JList xs) = list_ex has_title xs"
| "has_title v = False"

function has_schema_title :: "json \<Rightarrow> bool" where
  "has_schema_title (JDict schema) =
     (dict_contains schema ''title'' \<or>
      (case dict_get schema ''properties'' of
         Some (JDict properties) \<Rightarrow> list_ex (\<lambda>(key, sub). has_schema_title sub) properties
       | _ \<Rightarrow> False))"
| "has_schema_title JNull = False"
| "has_schema_title (JBool b) = False"
| "has_schema_title (JInt i) = False"
| "has_schema_title (JFloat x) = False"
| "has_schema_title (JStr s) = False"
| "has_schema_title (JList xs) = False"
  by pat_completeness auto
termination
proof (relation "measure size")
  show "wf (measure (size :: json \<Rightarrow> nat))" by simp
next
  fix schema :: dict and x2 :: json and properties :: dict
    and x :: "string \<times> json" and key :: string and sub :: json
  assume get: "dict_get schema ''properties'' = Some x2"
    and x2: "x2 = JDict properties"
    and mem: "x \<in> set properties"
    and x: "(key, sub) = x"
  from get x2 have "size (JDict properties) < Suc (size_list (size_prod (\<lambda>_. 0) size) schema)"
    using dict_get_size by blast
  moreover from mem x have "size sub < Suc (size_list (size_prod (\<lambda>_. 0) size) properties)"
    using entry_size [of key sub properties] by simp
  ultimately show "(sub, JDict schema) \<in> measure size" by simp
qed

text \<open>\<open>titles_removed v w\<close>: the value \<open>w\<close> is the value \<open>v\<close> with some entries of key
  \<^verbatim>\<open>title\<close> deleted from dictionaries of \<open>v\<close>, at any nesting depth of dictionaries;
  every other entry is kept, in its place.\<close>

inductive titles_removed :: "json \<Rightarrow> json \<Rightarrow> bool"
  and entries_titles_removed :: "dict \<Rightarrow> dict \<Rightarrow> bool" where
  same: "titles_removed v v"
| inside: "entries_titles_removed d e \<Longrightarrow> titles_removed (JDict d) (JDict e)"
| no_entries: "entries_titles_removed [] []"
| drop_title: "entries_titles_removed d e \<Longrightarrow> entries_titles_removed ((''title'', v) # d) e"
| keep_entry: "titles_removed v w \<Longrightarrow> entries_titles_removed d e \<Longrightarrow>
     entries_titles_removed ((k, v) # d) ((k, w) # e)"

text \<open>The value under a path of keys: \<^verbatim>\<open>v[k1][k2]...\<close>, \<open>None\<close> where a key is missing or
  a value on the way is not a dictionary.\<close>

fun lookup_path :: "json \<Rightarrow> string list \<Rightarrow> json option" where
  "lookup_path v [] = Some v"
| "lookup_path (JDict d) (k # ks) =
     (case dict_get d k of None \<Rightarrow> None | Some v \<Rightarrow> lookup_path v ks)"
| "lookup_path v (k # ks) = None"

text \<open>The example of the specification:
  \<^verbatim>\<open>{"type":"object","title":"Loc","properties":{"city":{"type":"string","title":"City"}}}\<close>.\<close>

definition example_schema :: json where
  "example_schema =
     JDict [(''type'', JStr ''object''), (''title'', JStr ''Loc''),
            (''properties'',
             JDict [(''city'', JDict [(''type'', JStr ''string''), (''title'', JStr ''City'')])])]"

section \<open>Exceptions\<close>

text \<open>
  A raised object is either an instance of \<^verbatim>\<open>Exception\<close> or lies outside that class
  (\<^verbatim>\<open>KeyboardInterrupt\<close>, \<^verbatim>\<open>SystemExit\<close>, \<^verbatim>\<open>asyncio.CancelledError\<close>); the string is
  \<^verbatim>\<open>str(e)\<close>.  Every handler of the repository is \<^verbatim>\<open>except Exception as e\<close> with a body
  that computes a value from \<^verbatim>\<open>str(e)\<close>: \<open>try_except\<close>.
\<close>

datatype exn = Exception string | BaseException string

definition try_except :: "exn + 'a \<Rightarrow> (string \<Rightarrow> 'a) \<Rightarrow> exn + 'a" where
  "try_except body handler =
     (case body of
        Inr x \<Rightarrow> Inr x
      | Inl (Exception msg) \<Rightarrow> Inr (handler msg)
      | Inl (BaseException msg) \<Rightarrow> Inl (BaseException msg))"

text \<open>\<^verbatim>\<open>str(KeyError(k))\<close> is the key in quotes.\<close>

definition key_error :: "string \<Rightarrow> exn" where
  "key_error k = Exception ([CHR 0x27] @ k @ [CHR 0x27])"

section \<open>The tool descriptor translator: \<^verbatim>\<open>convert_mcp_tools_to_gemini\<close> (client_sse.py)\<close>

text \<open>
  A tool of the protocol has a name, a description, which the protocol leaves optional,
  and an input schema.  \<^verbatim>\<open>FunctionDeclaration\<close> and \<^verbatim>\<open>Tool\<close> are classes of the model's
  library.  Their constructors check what they are given and raise on what the library
  refuses, a schema with a key it does not know for one; a constructor that returns has
  built the object from its keyword arguments.  What the library refuses is a
  parameter, \<open>genai\<close>: for the arguments of a constructor, the exception it raises or
  \<open>None\<close>.
\<close>

record mcp_tool =
  name :: string
  description :: "string option"
  inputSchema :: json

record function_declaration =
  fd_name :: string
  fd_description :: string
  parameters :: json

record gemini_tool =
  function_declarations :: "function_declaration list"

record genai =
  declaration_refused :: "string \<Rightarrow> string \<Rightarrow> json \<Rightarrow> exn option"
  tool_refused :: "function_declaration list \<Rightarrow> exn option"

definition FunctionDeclaration ::
  "genai \<Rightarrow> string \<Rightarrow> string \<Rightarrow> json \<Rightarrow> exn + function_declaration" where
  "FunctionDeclaration lib n d p =
     (case declaration_refused lib n d p of
        Some e \<Rightarrow> Inl e
      | None \<Rightarrow> Inr \<lparr>fd_name = n, fd_description = d, parameters = p\<rparr>)"

definition Tool :: "genai \<Rightarrow> function_declaration list \<Rightarrow> exn + gemini_tool" where
  "Tool lib fds =
     (case tool_refused lib fds of
        Some e \<Rightarrow> Inl e
      | None \<Rightarrow> Inr \<lparr>function_declarations = fds\<rparr>)"

definition return_type_suffix :: string where
  "return_type_suffix = '' The tool returns its result as a string.''"

text \<open>\<^verbatim>\<open>None + " The tool ..."\<close> raises this \<^verbatim>\<open>TypeError\<close>.\<close>

definition none_plus_str :: exn where
  "none_plus_str =
     Exception (''unsupported operand type(s) for +: 'NoneType' and 'str'' @ [CHR 0x27])"

text \<open>
  \<^verbatim>\<open>
  gemini_tools = []
  for tool in mcp_tools:
      parameters = clean_schema(tool.inputSchema)
      description = tool.description + " The tool returns its result as a string."
      function_declaration = FunctionDeclaration(
          name=tool.name, description=description, parameters=parameters)
      gemini_tool = Tool(function_declarations=[function_declaration])
      gemini_tools.append(gemini_tool)
  return gemini_tools
  \<close>
\<close>

fun convert_loop :: "genai \<Rightarrow> mcp_tool list \<Rightarrow> gemini_tool list \<Rightarrow> exn + gemini_tool list" where
  "convert_loop lib [] gemini_tools = Inr gemini_tools"
| "convert_loop lib (tool # mcp_tools) gemini_tools =
     (let parameters = clean_schema (inputSchema tool) in
      case description tool of
        None \<Rightarrow> Inl none_plus_str
      | Some d \<Rightarrow>
          (case FunctionDeclaration lib (name tool) (d @ return_type_suffix) parameters of
             Inl e \<Rightarrow> Inl e
           | Inr function_declaration \<Rightarrow>
               (case Tool lib [function_declaration] of
                  Inl e \<Rightarrow> Inl e
                | Inr gemini_tool \<Rightarrow> convert_loop lib mcp_tools (gemini_tools @ [gemini_tool]))))"

definition convert_mcp_tools_to_gemini :: "genai \<Rightarrow> mcp_tool list \<Rightarrow> exn + gemini_tool list" where
  "convert_mcp_tools_to_gemini lib mcp_tools = convert_loop lib mcp_tools []"

text \<open>What the body of the loop raises for one tool, \<open>None\<close> when it raises nothing: the
  \<^verbatim>\<open>TypeError\<close> of the concatenation, or else what \<^verbatim>\<open>FunctionDeclaration\<close> raises, or else
  what \<^verbatim>\<open>Tool\<close> raises.\<close>

definition rejection :: "genai \<Rightarrow> mcp_tool \<Rightarrow> exn option" where
  "rejection lib tool =
     (case description tool of
        None \<Rightarrow> Some none_plus_str
      | Some d \<Rightarrow>
          (case declaration_refused lib (name tool) (d @ return_type_suffix)
                  (clean_schema (inputSchema tool)) of
             Some e \<Rightarrow> Some e
           | None \<Rightarrow>
               tool_refused lib
                 [\<lparr>fd_name = name tool, fd_description = d @ return_type_suffix,
                   parameters = clean_schema (inputSchema tool)\<rparr>]))"

text \<open>The group the loop appends for a tool whose description is \<open>d\<close>; for examples, two
  tools, a tool without a description, a tool whose schema keeps a title below
  \<^verbatim>\<open>items\<close>, a library that refuses nothing and one that refuses a schema with a
  \<^verbatim>\<open>title\<close> key left in it.\<close>

definition declaration_of :: "mcp_tool \<Rightarrow> string \<Rightarrow> gemini_tool" where
  "declaration_of tool d =
     \<lparr>function_declarations =
        [\<lparr>fd_name = name tool, fd_description = d @ return_type_suffix,
          parameters = clean_schema (inputSchema tool)\<rparr>]\<rparr>"

definition example_tools :: "mcp_tool list" where
  "example_tools =
     [\<lparr>name = ''web_search'', description = Some ''Search the web using Tavily'',
       inputSchema = example_schema\<rparr>,
      \<lparr>name = ''add_integers'', description = Some ''Add two positive integers'',
       inputSchema = JDict [(''type'', JStr ''object'')]\<rparr>]"

definition undescribed_tool :: mcp_tool where
  "undescribed_tool =
     \<lparr>name = ''ping'', description = None, inputSchema = JDict [(''type'', JStr ''object'')]\<rparr>"

definition tagged_schema :: json where
  "tagged_schema =
     JDict [(''type'', JStr ''object''), (''title'', JStr ''Args''),
            (''properties'',
             JDict [(''tags'',
                     JDict [(''type'', JStr ''array''), (''title'', JStr ''Tags''),
                            (''items'', JDict [(''type'', JStr ''string''), (''title'', JStr ''Tag'')])])])]"

definition tagged_tool :: mcp_tool where
  "tagged_tool =
     \<lparr>name = ''tag'', description = Some ''Tag a note'', inputSchema = tagged_schema\<rparr>"

definition permissive :: genai where
  "permissive = \<lparr>declaration_refused = (\<lambda>n d p. None), tool_refused = (\<lambda>fds. None)\<rparr>"

definition strict :: genai where
  "strict =
     \<lparr>declaration_refused =
        (\<lambda>n d p. if has_title p then Some (Exception ''Unknown field for Schema: title'') else None),
      tool_refused = (\<lambda>fds. None)\<rparr>"

section \<open>The server tools (main.py, server_sse.py)\<close>

subsection \<open>\<^verbatim>\<open>web_search\<close>\<close>

text \<open>
  \<^verbatim>\<open>
  def web_search(query: str) -> List[Dict]:
      try:
          response = tavily_client.search(query)
          return response["results"]
      except Exception as e:
          return {"error": str(e)}
  \<close>
  The same body stands in main.py and in server_sse.py.  The search client is a
  parameter: it raises or returns a dictionary.
\<close>

definition web_search :: "(string \<Rightarrow> exn + dict) \<Rightarrow> string \<Rightarrow> exn + json" where
  "web_search tavily_search query =
     try_except
       (case tavily_search query of
          Inl e \<Rightarrow> Inl e
        | Inr response \<Rightarrow>
            (case dict_get response ''results'' of
               None \<Rightarrow> Inl (key_error ''results'')
             | Some results \<Rightarrow> Inr results))
       (\<lambda>msg. JDict [(''error'', JStr msg)])"

subsection \<open>\<^verbatim>\<open>run_command\<close>\<close>

text \<open>
  \<^verbatim>\<open>
  async def run_command(command: str) -> str:
      try:
          result = subprocess.run(
              shell=True, cwd=DEFAULT_WORKSPACE, capture_output=True, text=True)
          return result.stdout or result.stderr
      except Exception as e:
          return str(e)
  \<close>
  \<^verbatim>\<open>subprocess.run(*popenargs, ...)\<close> hands its positional arguments to \<^verbatim>\<open>Popen\<close>, whose
  first one, the command, is required: without it the call raises a \<^verbatim>\<open>TypeError\<close>
  before any process is started.  The operating system is a parameter: it runs a command
  line in a directory and yields the captured streams, or raises.
\<close>

record completed_process =
  stdout :: string
  stderr :: string

definition DEFAULT_WORKSPACE :: string where
  "DEFAULT_WORKSPACE = ''D:/OFFICE PENTA/New folder/mcp-sse/mcp_workspace''"

definition popen_missing_args :: string where
  "popen_missing_args =
     ''Popen.__init__() missing 1 required positional argument: 'args'' @ [CHR 0x27]"

definition subprocess_run ::
  "(string \<Rightarrow> string \<Rightarrow> exn + completed_process) \<Rightarrow> string list \<Rightarrow> string \<Rightarrow>
   exn + completed_process" where
  "subprocess_run shell popenargs cwd =
     (case popenargs of
        [] \<Rightarrow> Inl (Exception popen_missing_args)
      | args # _ \<Rightarrow> shell cwd args)"

definition run_command ::
  "(string \<Rightarrow> string \<Rightarrow> exn + completed_process) \<Rightarrow> string \<Rightarrow> exn + string" where
  "run_command shell command =
     try_except
       (case subprocess_run shell [] DEFAULT_WORKSPACE of
          Inl e \<Rightarrow> Inl e
        | Inr result \<Rightarrow> Inr (if stdout result \<noteq> [] then stdout result else stderr result))
       (\<lambda>msg. msg)"

section \<open>The client: \<^verbatim>\<open>MCPClient\<close> (client_sse.py)\<close>

subsection \<open>The state and the outside world\<close>

text \<open>
  The client talks to three libraries: the SSE transport and the protocol session, which
  it holds as asynchronous context managers, and the generative model.  Their objects
  are values of a type \<open>'o\<close>, a tool's result is a value of a type \<open>'r\<close>, and what the
  libraries do is a parameter, the environment: each operation takes the state of the
  outside world \<open>'w\<close> and yields an exception or a value, and the next state of the
  world.  The coroutines of the client are awaited one after the other, so they are
  plain state transformers.  The \<open>trace\<close> records the calls the client makes, in order;
  it is a ghost field, the code has no such list.  Output printed to the console is left
  out.
\<close>

datatype turn =
    UserTurn string
  | ModelCallTurn string dict
  | FunctionTurn string string

text \<open>The three shapes of content the client sends to the model:
  \<^verbatim>\<open>{"role": "user", "parts": [{"text": query}]}\<close>,
  \<^verbatim>\<open>{"role": "model", "parts": [{"function_call": {"name": n, "args": a}}]}\<close> and
  \<^verbatim>\<open>{"role": "function", "parts": [{"function_response": {"name": n, "response": {"content": r}}}]}\<close>.\<close>

record function_call =
  fc_name :: string
  fc_args :: "dict option"

text \<open>\<open>fc_args\<close> is what \<^verbatim>\<open>dict(part.function_call.args)\<close> yields, \<open>None\<close> when it raises.
  A part's \<open>function_call\<close> is \<open>None\<close> when the part has no such attribute or a false one;
  \<open>part_text\<close> is \<^verbatim>\<open>part.text\<close>.\<close>

record part =
  function_call :: "function_call option"
  part_text :: string

record candidate =
  content_parts :: "part list"

record response =
  candidates :: "candidate list"

datatype 'o event =
    Created 'o
  | Aenter 'o
  | Aexit 'o
  | Initialize 'o
  | ListTools 'o
  | CallTool 'o string dict
  | Generate "turn list"

record 'o client =
  session :: "'o option"
  streams_context :: "'o option"
  session_context :: "'o option"
  self_function_declarations :: "gemini_tool list option"

record ('w, 'o, 'r) env =
  sse_client :: "string \<Rightarrow> 'w \<Rightarrow> (exn + 'o) \<times> 'w"
  ClientSession :: "'o \<Rightarrow> 'w \<Rightarrow> (exn + 'o) \<times> 'w"
  aenter :: "'o \<Rightarrow> 'w \<Rightarrow> (exn + 'o) \<times> 'w"
  aexit :: "'o \<Rightarrow> 'w \<Rightarrow> (exn + unit) \<times> 'w"
  initialize :: "'o \<Rightarrow> 'w \<Rightarrow> (exn + unit) \<times> 'w"
  list_tools :: "'o \<Rightarrow> 'w \<Rightarrow> (exn + mcp_tool list) \<times> 'w"
  call_tool :: "'o \<Rightarrow> string \<Rightarrow> dict \<Rightarrow> 'w \<Rightarrow> (exn + 'r) \<times> 'w"
  generate_content :: "gemini_tool list \<Rightarrow> turn list \<Rightarrow> 'w \<Rightarrow> (exn + response) \<times> 'w"
  isinstance_list_dict :: "'r \<Rightarrow> bool"
  json_dumps :: "'r \<Rightarrow> exn + string"
  py_str :: "'r \<Rightarrow> string"

record ('w, 'o) state =
  self :: "'o client"
  world :: 'w
  trace :: "'o event list"

text \<open>\<^verbatim>\<open>__init__\<close> sets the session and both contexts to \<^verbatim>\<open>None\<close>; the attribute
  \<^verbatim>\<open>function_declarations\<close> does not exist before \<^verbatim>\<open>connect_to_sse_server\<close> assigns it.\<close>

definition init_client :: "'o client" where
  "init_client =
     \<lparr>session = None, streams_context = None, session_context = None,
      self_function_declarations = None\<rparr>"

text \<open>A call of an operation of the outside world, recorded in the trace; and the
  construction of a context manager, recorded when it returns the object.\<close>

definition perform ::
  "'o event \<Rightarrow> ('w \<Rightarrow> (exn + 'a) \<times> 'w) \<Rightarrow> ('w, 'o) state \<Rightarrow> (exn + 'a) \<times> ('w, 'o) state" where
  "perform ev operation s =
     (case operation (world s) of
        (r, w) \<Rightarrow> (r, s\<lparr>world := w, trace := trace s @ [ev]\<rparr>))"

definition construct ::
  "('w \<Rightarrow> (exn + 'o) \<times> 'w) \<Rightarrow> ('w, 'o) state \<Rightarrow> (exn + 'o) \<times> ('w, 'o) state" where
  "construct operation s =
     (case operation (world s) of
        (Inl e, w) \<Rightarrow> (Inl e, s\<lparr>world := w\<rparr>)
      | (Inr obj, w) \<Rightarrow> (Inr obj, s\<lparr>world := w, trace := trace s @ [Created obj]\<rparr>))"

subsection \<open>\<^verbatim>\<open>connect_to_sse_server\<close> and \<^verbatim>\<open>cleanup\<close>\<close>

text \<open>
  \<^verbatim>\<open>
  self._streams_context = sse_client(url=server_url)
  streams = await self._streams_context.__aenter__()
  self._session_context = ClientSession(*streams)
  self.session: ClientSession = await self._session_context.__aenter__()
  await self.session.initialize()
  response = await self.session.list_tools()
  tools = response.tools
  self.function_declarations = convert_mcp_tools_to_gemini(tools)
  \<close>
  An exception at any step leaves the attributes assigned so far in place.  The library
  of the model is a parameter, for the translation of the tools.
\<close>

definition connect_to_sse_server ::
  "genai \<Rightarrow> ('w, 'o, 'r) env \<Rightarrow> string \<Rightarrow> ('w, 'o) state \<Rightarrow> (exn + unit) \<times> ('w, 'o) state" where
  "connect_to_sse_server lib env server_url s =
     (case construct (sse_client env server_url) s of
        (Inl e, s1) \<Rightarrow> (Inl e, s1)
      | (Inr sc, s1) \<Rightarrow>
     (case perform (Aenter sc) (aenter env sc)
             (s1\<lparr>self := (self s1)\<lparr>streams_context := Some sc\<rparr>\<rparr>) of
        (Inl e, s2) \<Rightarrow> (Inl e, s2)
      | (Inr streams, s2) \<Rightarrow>
     (case construct (ClientSession env streams) s2 of
        (Inl e, s3) \<Rightarrow> (Inl e, s3)
      | (Inr ctx, s3) \<Rightarrow>
     (case perform (Aenter ctx) (aenter env ctx)
             (s3\<lparr>self := (self s3)\<lparr>session_context := Some ctx\<rparr>\<rparr>) of
        (Inl e, s4) \<Rightarrow> (Inl e, s4)
      | (Inr sess, s4) \<Rightarrow>
     (case perform (Initialize sess) (initialize env sess)
             (s4\<lparr>self := (self s4)\<lparr>session := Some sess\<rparr>\<rparr>) of
        (Inl e, s5) \<Rightarrow> (Inl e, s5)
      | (Inr u, s5) \<Rightarrow>
     (case perform (ListTools sess) (list_tools env sess) s5 of
        (Inl e, s6) \<Rightarrow> (Inl e, s6)
      | (Inr tools, s6) \<Rightarrow>
     (case convert_mcp_tools_to_gemini lib tools of
        Inl e \<Rightarrow> (Inl e, s6)
      | Inr decls \<Rightarrow>
          (Inr (), s6\<lparr>self := (self s6)\<lparr>self_function_declarations := Some decls\<rparr>\<rparr>))))))))"

text \<open>
  \<^verbatim>\<open>
  async def cleanup(self):
      if self._session_context:
          await self._session_context.__aexit__(None, None, None)
      if self._streams_context:
          await self._streams_context.__aexit__(None, None, None)
  \<close>
  A context manager object is true; the test fails for \<^verbatim>\<open>None\<close> only.  The value
  \<^verbatim>\<open>__aexit__\<close> returns is dropped, and no attribute is assigned.
\<close>

definition cleanup ::
  "('w, 'o, 'r) env \<Rightarrow> ('w, 'o) state \<Rightarrow> (exn + unit) \<times> ('w, 'o) state" where
  "cleanup env s =
     (case (case session_context (self s) of
              None \<Rightarrow> (Inr (), s)
            | Some ctx \<Rightarrow> perform (Aexit ctx) (aexit env ctx) s) of
        (Inl e, s1) \<Rightarrow> (Inl e, s1)
      | (Inr u, s1) \<Rightarrow>
          (case streams_context (self s1) of
             None \<Rightarrow> (Inr (), s1)
           | Some ctx \<Rightarrow> perform (Aexit ctx) (aexit env ctx) s1))"

text \<open>The exits \<^verbatim>\<open>cleanup\<close> is to make for a client: the session context's, then the
  stream context's, each when the attribute holds an object.\<close>

definition pending_exits :: "'o client \<Rightarrow> 'o event list" where
  "pending_exits c =
     map Aexit (case session_context c of None \<Rightarrow> [] | Some ctx \<Rightarrow> [ctx]) @
     map Aexit (case streams_context c of None \<Rightarrow> [] | Some ctx \<Rightarrow> [ctx])"

text \<open>The context managers a trace records as constructed, and a client as
  \<^verbatim>\<open>MCPClient()\<close> leaves it, with nothing recorded yet.\<close>

fun created_objects :: "'o event list \<Rightarrow> 'o list" where
  "created_objects [] = []"
| "created_objects (Created obj # evs) = obj # created_objects evs"
| "created_objects (ev # evs) = created_objects evs"

definition fresh :: "'w \<Rightarrow> ('w, 'o) state" where
  "fresh w = \<lparr>self = init_client, world = w, trace = []\<rparr>"

subsection \<open>\<^verbatim>\<open>process_query\<close>\<close>

text \<open>\<^verbatim>\<open>'\n'.join(final_text)\<close>.\<close>

fun join_lines :: "string list \<Rightarrow> string" where
  "join_lines [] = []"
| "join_lines [x] = x"
| "join_lines (x # y # ys) = x @ [CHR 0x0A] @ join_lines (y # ys)"

text \<open>The two \<^verbatim>\<open>AttributeError\<close>s a client that never connected can meet.\<close>

definition no_call_tool :: exn where
  "no_call_tool =
     Exception ([CHR 0x27] @ ''NoneType' object has no attribute 'call_tool'' @ [CHR 0x27])"

definition no_function_declarations :: exn where
  "no_function_declarations =
     Exception ([CHR 0x27] @ ''MCPClient' object has no attribute 'function_declarations''
                @ [CHR 0x27])"

text \<open>
  \<^verbatim>\<open>
  try:
      result = await self.session.call_tool(tool_name, tool_args)
      if isinstance(result, (list, dict)):
          function_response = json.dumps(result)
      else:
          function_response = str(result)
  except Exception as e:
      function_response = f"Tool error: {str(e)}"
  \<close>
\<close>

definition function_response_of ::
  "('w, 'o, 'r) env \<Rightarrow> string \<Rightarrow> dict \<Rightarrow> ('w, 'o) state \<Rightarrow> (exn + string) \<times> ('w, 'o) state" where
  "function_response_of env tool_name tool_args s =
     (case (case session (self s) of
              None \<Rightarrow> (Inl no_call_tool, s)
            | Some sess \<Rightarrow>
                (case perform (CallTool sess tool_name tool_args)
                        (call_tool env sess tool_name tool_args) s of
                   (Inl e, s1) \<Rightarrow> (Inl e, s1)
                 | (Inr result, s1) \<Rightarrow>
                     (if isinstance_list_dict env result then json_dumps env result
                      else Inr (py_str env result), s1))) of
        (body, s1) \<Rightarrow> (try_except body (\<lambda>msg. ''Tool error: '' @ msg), s1))"

text \<open>
  \<^verbatim>\<open>
  if response.candidates and response.candidates[0].content.parts:
      final_text.append(response.candidates[0].content.parts[0].text)
  \<close>
  The texts this statement appends to \<^verbatim>\<open>final_text\<close>: one or none.
\<close>

definition leading_text :: "response \<Rightarrow> string list" where
  "leading_text response =
     (case candidates response of
        [] \<Rightarrow> []
      | c # _ \<Rightarrow> (case content_parts c of [] \<Rightarrow> [] | p # _ \<Rightarrow> [part_text p]))"

text \<open>The branch of the loop body for a part with a function call (lines 106 to 159): the
  arguments, with \<^verbatim>\<open>{}\<close> when their conversion raises; the tool call; the second call of
  the model, with the user's prompt, the model's call and the tool's response.\<close>

definition continuation_turns :: "string \<Rightarrow> string \<Rightarrow> dict \<Rightarrow> string \<Rightarrow> turn list" where
  "continuation_turns query tool_name tool_args function_response =
     [UserTurn query, ModelCallTurn tool_name tool_args,
      FunctionTurn tool_name function_response]"

definition tool_args_of :: "function_call \<Rightarrow> dict" where
  "tool_args_of fc = (case fc_args fc of None \<Rightarrow> [] | Some d \<Rightarrow> d)"

definition call_branch ::
  "('w, 'o, 'r) env \<Rightarrow> gemini_tool list \<Rightarrow> string \<Rightarrow> function_call \<Rightarrow> string list \<Rightarrow>
   ('w, 'o) state \<Rightarrow> (exn + string list) \<times> ('w, 'o) state" where
  "call_branch env decls query fc final_text s =
     (let tool_name = fc_name fc; tool_args = tool_args_of fc in
      case function_response_of env tool_name tool_args s of
        (Inl e, s1) \<Rightarrow> (Inl e, s1)
      | (Inr function_response, s1) \<Rightarrow>
          (let turns = continuation_turns query tool_name tool_args function_response in
           case perform (Generate turns) (generate_content env decls turns) s1 of
             (Inl e, s2) \<Rightarrow> (Inl e, s2)
           | (Inr response, s2) \<Rightarrow> (Inr (final_text @ leading_text response), s2)))"

text \<open>The loop over the parts of one candidate and the loop over the candidates.  Both
  run over the lists of the first response: the assignment to \<^verbatim>\<open>response\<close> in the body
  does not change what the two \<^verbatim>\<open>for\<close> statements iterate over.\<close>

fun parts_loop ::
  "('w, 'o, 'r) env \<Rightarrow> gemini_tool list \<Rightarrow> string \<Rightarrow> part list \<Rightarrow> string list \<Rightarrow>
   ('w, 'o) state \<Rightarrow> (exn + string list) \<times> ('w, 'o) state" where
  "parts_loop env decls query [] final_text s = (Inr final_text, s)"
| "parts_loop env decls query (p # ps) final_text s =
     (case function_call p of
        Some fc \<Rightarrow>
          (case call_branch env decls query fc final_text s of
             (Inl e, s1) \<Rightarrow> (Inl e, s1)
           | (Inr final_text1, s1) \<Rightarrow> parts_loop env decls query ps final_text1 s1)
      | None \<Rightarrow> parts_loop env decls query ps (final_text @ [part_text p]) s)"

fun candidates_loop ::
  "('w, 'o, 'r) env \<Rightarrow> gemini_tool list \<Rightarrow> string \<Rightarrow> candidate list \<Rightarrow> string list \<Rightarrow>
   ('w, 'o) state \<Rightarrow> (exn + string list) \<times> ('w, 'o) state" where
  "candidates_loop env decls query [] final_text s = (Inr final_text, s)"
| "candidates_loop env decls query (c # cs) final_text s =
     (case parts_loop env decls query (content_parts c) final_text s of
        (Inl e, s1) \<Rightarrow> (Inl e, s1)
      | (Inr final_text1, s1) \<Rightarrow> candidates_loop env decls query cs final_text1 s1)"

text \<open>
  \<^verbatim>\<open>
  user_prompt_content = {"role": "user", "parts": [{"text": query}]}
  model = generativeai.GenerativeModel(
      model_name="gemini-1.5-flash", tools=self.function_declarations)
  response = model.generate_content([user_prompt_content])
  final_text = []
  for candidate in response.candidates:
      if candidate.content.parts:
          for part in candidate.content.parts:
              ...
  return '\n'.join(final_text)
  \<close>
\<close>

definition process_query ::
  "('w, 'o, 'r) env \<Rightarrow> string \<Rightarrow> ('w, 'o) state \<Rightarrow> (exn + string) \<times> ('w, 'o) state" where
  "process_query env query s =
     (case self_function_declarations (self s) of
        None \<Rightarrow> (Inl no_function_declarations, s)
      | Some decls \<Rightarrow>
          (case perform (Generate [UserTurn query])
                  (generate_content env decls [UserTurn query]) s of
             (Inl e, s1) \<Rightarrow> (Inl e, s1)
           | (Inr response, s1) \<Rightarrow>
               (case candidates_loop env decls query (candidates response) [] s1 of
                  (Inl e, s2) \<Rightarrow> (Inl e, s2)
                | (Inr final_text, s2) \<Rightarrow> (Inr (join_lines final_text), s2))))"

text \<open>The function calls of a response, in the order the loops meet them, and the
  model calls and tool calls of a trace.\<close>

definition function_calls_of :: "response \<Rightarrow> function_call list" where
  "function_calls_of response =
     concat (map (\<lambda>c. List.map_filter function_call (content_parts c)) (candidates response))"

fun generate_calls :: "'o event list \<Rightarrow> turn list list" where
  "generate_calls [] = []"
| "generate_calls (Generate turns # evs) = turns # generate_calls evs"
| "generate_calls (ev # evs) = generate_calls evs"

fun tool_calls :: "'o event list \<Rightarrow> (string \<times> dict) list" where
  "tool_calls [] = []"
| "tool_calls (CallTool sess tool_name tool_args # evs) = (tool_name, tool_args) # tool_calls evs"
| "tool_calls (ev # evs) = tool_calls evs"

text \<open>The tool call the loop makes for a function call of the model, the function calls
  among the parts of one candidate, and what a run of the loops over function calls
  \<open>fcs\<close> does to the state: it assigns no attribute of the client and appends calls to
  the trace, the tool calls a prefix of those of \<open>fcs\<close> and at most one model call for
  each; all of them when the run returns.\<close>

definition expected_call :: "function_call \<Rightarrow> string \<times> dict" where
  "expected_call fc = (fc_name fc, tool_args_of fc)"

definition calls_of_parts :: "part list \<Rightarrow> function_call list" where
  "calls_of_parts ps = List.map_filter function_call ps"

definition loop_effect ::
  "('w, 'o) state \<Rightarrow> ('w, 'o) state \<Rightarrow> bool \<Rightarrow> function_call list \<Rightarrow> bool" where
  "loop_effect s s1 returned fcs \<longleftrightarrow>
     self s1 = self s \<and>
     (\<exists>evs. trace s1 = trace s @ evs \<and>
        prefix (tool_calls evs) (map expected_call fcs) \<and>
        (session (self s) = None \<longrightarrow> tool_calls evs = []) \<and>
        length (generate_calls evs) \<le> length fcs \<and>
        (returned \<longrightarrow> length (generate_calls evs) = length fcs \<and>
           (session (self s) \<noteq> None \<longrightarrow> tool_calls evs = map expected_call fcs)))"

text \<open>The model always answers; the tool call always raises an \<^verbatim>\<open>Exception\<close>; and the
  turns sent to the model after a call \<open>fc\<close> whose tool call raised.\<close>

definition model_returns :: "('w, 'o, 'r) env \<Rightarrow> bool" where
  "model_returns env \<longleftrightarrow>
     (\<forall>ds turns w. \<exists>response w'. generate_content env ds turns w = (Inr response, w'))"

definition tool_raises :: "('w, 'o, 'r) env \<Rightarrow> 'o \<Rightarrow> bool" where
  "tool_raises env sess \<longleftrightarrow>
     (\<forall>n a w. \<exists>msg w'. call_tool env sess n a w = (Inl (Exception msg), w'))"

definition error_turns ::
  "('w, 'o, 'r) env \<Rightarrow> 'o \<Rightarrow> string \<Rightarrow> function_call \<Rightarrow> turn list \<Rightarrow> bool" where
  "error_turns env sess query fc turns \<longleftrightarrow>
     (\<exists>msg w w'. call_tool env sess (fc_name fc) (tool_args_of fc) w = (Inl (Exception msg), w') \<and>
        turns = [UserTurn query, ModelCallTurn (fc_name fc) (tool_args_of fc),
                 FunctionTurn (fc_name fc) (''Tool error: '' @ msg)])"

subsection \<open>A world for examples\<close>

text \<open>
  A world without state whose objects are numbers: the stream context is 1, entering a
  context \<open>n\<close> yields \<open>n + 10\<close>.  The outcome of \<^verbatim>\<open>__aexit__\<close> for each context, of
  \<^verbatim>\<open>ClientSession(...)\<close> and of the tool call, the model's answer to the user's prompt
  alone and its answer to every longer conversation are parameters.
\<close>

definition example_env ::
  "(nat \<Rightarrow> exn + unit) \<Rightarrow> (exn + nat) \<Rightarrow> (exn + json) \<Rightarrow> response \<Rightarrow> response \<Rightarrow>
   (unit, nat, json) env" where
  "example_env exit_outcome session_outcome tool_outcome first continuation =
     \<lparr>sse_client = (\<lambda>url w. (Inr 1, w)),
      ClientSession = (\<lambda>streams w. (session_outcome, w)),
      aenter = (\<lambda>obj w. (Inr (obj + 10), w)),
      aexit = (\<lambda>obj w. (exit_outcome obj, w)),
      initialize = (\<lambda>sess w. (Inr (), w)),
      list_tools = (\<lambda>sess w. (Inr [], w)),
      call_tool = (\<lambda>sess tool_name tool_args w. (tool_outcome, w)),
      generate_content =
        (\<lambda>decls turns w. (Inr (case turns of [UserTurn q] \<Rightarrow> first | _ \<Rightarrow> continuation), w)),
      isinstance_list_dict = (\<lambda>r. is_list r \<or> is_dict r),
      json_dumps = (\<lambda>r. Inr ''{result: 5}''),
      py_str = (\<lambda>r. ''5'')\<rparr>"

text \<open>Outcomes of \<^verbatim>\<open>__aexit__\<close>: every exit returns; every exit raises; the stream
  context's exit raises.\<close>

definition ok_exit :: "nat \<Rightarrow> exn + unit" where
  "ok_exit obj = Inr ()"

definition broken_exit :: "nat \<Rightarrow> exn + unit" where
  "broken_exit obj = Inl (Exception ''stream closed'')"

definition stream_exit_fails :: "nat \<Rightarrow> exn + unit" where
  "stream_exit_fails obj = (if obj = 1 then Inl (Exception ''stream closed'') else Inr ())"


text \<open>The model asks for \<^verbatim>\<open>add_integers({num1: 2, num2: 3})\<close>; a text part follows.\<close>

definition add_call :: function_call where
  "add_call = \<lparr>fc_name = ''add_integers'', fc_args = Some [(''num1'', JInt 2), (''num2'', JInt 3)]\<rparr>"

definition call_response :: response where
  "call_response =
     \<lparr>candidates = [\<lparr>content_parts = [\<lparr>function_call = Some add_call, part_text = []\<rparr>]\<rparr>]\<rparr>"

definition call_and_text_response :: response where
  "call_and_text_response =
     \<lparr>candidates = [\<lparr>content_parts =
        [\<lparr>function_call = Some add_call, part_text = []\<rparr>,
         \<lparr>function_call = None, part_text = ''Let me add them.''\<rparr>]\<rparr>]\<rparr>"

text \<open>Answers to the second call: no candidate at all; a text; a further function call.\<close>

definition empty_response :: response where
  "empty_response = \<lparr>candidates = []\<rparr>"

definition text_response :: "string \<Rightarrow> response" where
  "text_response t = \<lparr>candidates = [\<lparr>content_parts = [\<lparr>function_call = None, part_text = t\<rparr>]\<rparr>]\<rparr>"

definition search_call_response :: response where
  "search_call_response =
     \<lparr>candidates = [\<lparr>content_parts =
        [\<lparr>function_call = Some \<lparr>fc_name = ''web_search'', fc_args = Some [(''query'', JStr ''5'')]\<rparr>,
          part_text = []\<rparr>]\<rparr>]\<rparr>"

text \<open>A first answer with a function call between two texts, its three parts, and two
  worlds for it: in both the tool raises \<^verbatim>\<open>boom\<close>; in the first the model answers the
  second call with a text, in the second its second call raises.\<close>

definition first_part :: part where
  "first_part = \<lparr>function_call = None, part_text = ''First.''\<rparr>"

definition call_part :: part where
  "call_part = \<lparr>function_call = Some add_call, part_text = []\<rparr>"

definition last_part :: part where
  "last_part = \<lparr>function_call = None, part_text = ''Last.''\<rparr>"

definition text_call_text_response :: response where
  "text_call_text_response =
     \<lparr>candidates = [\<lparr>content_parts = [first_part, call_part, last_part]\<rparr>]\<rparr>"

definition raising_tool_env :: "(unit, nat, json) env" where
  "raising_tool_env =
     example_env ok_exit (Inr 2) (Inl (Exception ''boom'')) text_call_text_response
       (text_response ''I could not add them.'')"

definition failing_model_env :: "(unit, nat, json) env" where
  "failing_model_env =
     (example_env ok_exit (Inr 2) (Inl (Exception ''boom'')) call_response empty_response)
       \<lparr>generate_content :=
          (\<lambda>decls turns w.
             (case turns of
                [UserTurn q] \<Rightarrow> Inr call_response
              | _ \<Rightarrow> Inl (Exception ''model unavailable''), w))\<rparr>"

text \<open>The client after a connection in this world and after a connection that failed at
  \<^verbatim>\<open>ClientSession(...)\<close>, each with an empty trace.\<close>

definition connected :: "(unit, nat) state" where
  "connected =
     \<lparr>self = \<lparr>session = Some 12, streams_context = Some 1, session_context = Some 2,
              self_function_declarations = Some []\<rparr>,
      world = (), trace = []\<rparr>"

definition half_connected :: "(unit, nat) state" where
  "half_connected =
     \<lparr>self = \<lparr>session = None, streams_context = Some 1, session_context = None,
              self_function_declarations = None\<rparr>,
      world = (), trace = []\<rparr>"








section \<open>Properties of the schema sanitizer\<close>

subsection \<open>Dictionary operations\<close>

lemma dict_pop_no_key: "\<not> dict_contains (dict_pop d k) k"
  by (auto simp: dict_contains_def dict_pop_def)

lemma dict_pop_absent: "\<not> dict_contains d k \<Longrightarrow> dict_pop d k = d"
  by (induction d) (auto simp: dict_contains_def dict_pop_def)

lemma keys_dict_set:
  "map fst (dict_set d k v) = (if dict_contains d k then map fst d else map fst d @ [k])"
  by (induction d) (force simp: dict_contains_def)+

lemma dict_contains_set: "dict_contains (dict_set d k v) k' \<longleftrightarrow> k' = k \<or> dict_contains d k'"
  unfolding dict_contains_def [of "dict_set d k v"] keys_dict_set
  by (auto simp: dict_contains_def)

lemma dict_get_set: "dict_get (dict_set d k v) k' = (if k' = k then Some v else dict_get d k')"
  by (induction d) (auto simp: dict_get_def)

lemma dict_set_set: "dict_set (dict_set d k v) k w = dict_set d k w"
  by (induction d) auto

lemma dict_set_same: "dict_get d k = Some v \<Longrightarrow> dict_set d k v = d"
  by (induction d) (auto simp: dict_get_def split: if_splits)

lemma clean_schema_dict:
  "clean_schema (JDict schema) =
     (case dict_get (dict_pop schema ''title'') ''properties'' of
        Some (JDict properties) \<Rightarrow>
          JDict (dict_set (dict_pop schema ''title'') ''properties''
                   (JDict (map (\<lambda>(key, sub). (key, clean_schema sub)) properties)))
      | _ \<Rightarrow> JDict (dict_pop schema ''title''))"
  by (simp add: Let_def)

lemma dict_get_append_absent:
  "k \<notin> fst ` set qs \<Longrightarrow> dict_get (qs @ xs) k = dict_get xs k"
  by (induction qs) (auto simp: dict_get_def)

lemma dict_set_append_absent:
  "k \<notin> fst ` set qs \<Longrightarrow> dict_set (qs @ xs) k v = qs @ dict_set xs k v"
  by (induction qs) auto

lemma assign_each_append:
  "distinct (map fst (qs @ ps)) \<Longrightarrow>
   assign_each f (map fst ps) (qs @ ps) = qs @ map (\<lambda>(key, sub). (key, f sub)) ps"
proof (induction ps arbitrary: qs)
  case Nil
  then show ?case by simp
next
  case (Cons kv ps)
  obtain k v where kv: "kv = (k, v)" by (cases kv)
  from Cons.prems kv have absent: "k \<notin> fst ` set qs" by auto
  from Cons.prems kv have "distinct (map fst ((qs @ [(k, f v)]) @ ps))" by auto
  note ih = Cons.IH [OF this]
  have get: "dict_get (qs @ (k, v) # ps) k = Some v"
    unfolding dict_get_append_absent [OF absent] by (simp add: dict_get_def)
  have set: "dict_set (qs @ (k, v) # ps) k (f v) = qs @ (k, f v) # ps"
    unfolding dict_set_append_absent [OF absent] by simp
  from ih show ?case
    by (simp add: kv get set)
qed

lemma assign_each_map:
  "distinct (map fst ps) \<Longrightarrow>
   assign_each f (map fst ps) ps = map (\<lambda>(key, sub). (key, f sub)) ps"
  using assign_each_append [of "[]" ps f] by simp

text \<open>The sanitizer keeps the keys of every dictionary distinct.\<close>

lemma list_all_dict_set:
  "list_all P d \<Longrightarrow> P (k, v) \<Longrightarrow> list_all P (dict_set d k v)"
  by (induction d) auto

lemma dict_get_mem: "dict_get d k = Some v \<Longrightarrow> (k, v) \<in> set d"
  by (simp add: dict_get_def map_of_SomeD)

lemma wf_json_clean_schema: "wf_json s \<Longrightarrow> wf_json (clean_schema s)"
proof (induction s rule: clean_schema.induct)
  case (1 schema)
  let ?d1 = "dict_pop schema ''title''"
  from "1.prems" have d1: "distinct (map fst ?d1)" "list_all (\<lambda>(k, v). wf_json v) ?d1"
    by (auto simp: dict_pop_def distinct_map_filter list_all_iff)
  show ?case
  proof (cases "\<exists>ps. dict_get ?d1 ''properties'' = Some (JDict ps)")
    case False
    then have "clean_schema (JDict schema) = JDict ?d1"
      by (auto simp: Let_def split: option.splits json.splits)
    with d1 show ?thesis by simp
  next
    case True
    then obtain ps where ps: "dict_get ?d1 ''properties'' = Some (JDict ps)" by blast
    let ?ps' = "map (\<lambda>(key, sub). (key, clean_schema sub)) ps"
    from dict_get_mem [OF ps] d1(2)
    have "case (''properties'', JDict ps) of (k, v) \<Rightarrow> wf_json v"
      unfolding list_all_iff by blast
    then have wps: "wf_json (JDict ps)" by simp
    have cleaned: "wf_json (clean_schema sub)" if "(key, sub) \<in> set ps" for key sub
    proof -
      from wps that have "wf_json sub" by (auto simp: list_all_iff)
      with "1.IH" [OF refl ps refl that refl] show ?thesis .
    qed
    have keys: "map fst ?ps' = map fst ps" by (induction ps) auto
    have "distinct (map fst ?ps')" unfolding keys using wps by simp
    moreover have "list_all (\<lambda>(k, v). wf_json v) ?ps'"
      using cleaned by (auto simp: list_all_iff)
    ultimately have "wf_json (JDict ?ps')" by simp
    moreover have "dict_contains ?d1 ''properties''"
      using dict_get_mem [OF ps] by (auto simp: dict_contains_def intro: rev_image_eqI)
    moreover have "clean_schema (JDict schema) = JDict (dict_set ?d1 ''properties'' (JDict ?ps'))"
      using ps by (simp add: Let_def)
    ultimately show ?thesis
      using d1 by (simp add: keys_dict_set list_all_dict_set)
  qed
qed simp_all

lemma entries_titles_removed_refl: "entries_titles_removed d d"
  by (induction d) (auto intro: titles_removed_entries_titles_removed.intros)

lemma entries_titles_removed_pop: "entries_titles_removed d (dict_pop d ''title'')"
  by (induction d) (auto simp: dict_pop_def intro: titles_removed_entries_titles_removed.intros)

lemma entries_titles_removed_set:
  "dict_get (dict_pop d ''title'') k = Some v \<Longrightarrow> titles_removed v w \<Longrightarrow>
   entries_titles_removed d (dict_set (dict_pop d ''title'') k w)"
proof (induction d)
  case Nil
  then show ?case by (simp add: dict_get_def dict_pop_def)
next
  case (Cons kv d)
  obtain k' v' where kv: "kv = (k', v')" by (cases kv)
  show ?case
  proof (cases "k' = ''title''")
    case True
    with Cons kv show ?thesis
      by (auto simp: dict_pop_def dict_get_def intro: drop_title)
  next
    case False
    show ?thesis
    proof (cases "k' = k")
      case True
      with Cons.prems kv False have "v' = v"
        by (simp add: dict_pop_def dict_get_def)
      with True False kv Cons.prems(2) show ?thesis
        using entries_titles_removed_pop [of d]
        by (auto simp: dict_pop_def intro: keep_entry)
    next
      case k: False
      with Cons kv False show ?thesis
        by (auto simp: dict_pop_def dict_get_def intro: keep_entry same)
    qed
  qed
qed

lemma entries_titles_removed_map:
  "(\<And>key sub. (key, sub) \<in> set ps \<Longrightarrow> titles_removed sub (f sub)) \<Longrightarrow>
   entries_titles_removed ps (map (\<lambda>(key, sub). (key, f sub)) ps)"
  by (induction ps) (auto intro: no_entries keep_entry)

lemma titles_removed_clean: "titles_removed s (clean_schema s)"
proof (induction s rule: clean_schema.induct)
  case (1 schema)
  let ?d1 = "dict_pop schema ''title''"
  show ?case
  proof (cases "\<exists>ps. dict_get ?d1 ''properties'' = Some (JDict ps)")
    case False
    then have "clean_schema (JDict schema) = JDict ?d1"
      by (auto simp: Let_def split: option.splits json.splits)
    then show ?thesis
      by (simp add: inside entries_titles_removed_pop)
  next
    case True
    then obtain ps where ps: "dict_get ?d1 ''properties'' = Some (JDict ps)" by blast
    let ?ps' = "map (\<lambda>(key, sub). (key, clean_schema sub)) ps"
    have ih: "titles_removed sub (clean_schema sub)" if "(key, sub) \<in> set ps" for key sub
      using "1.IH" [OF refl ps refl that refl] .
    have "titles_removed (JDict ps) (JDict ?ps')"
      using ih by (intro inside entries_titles_removed_map)
    then have "entries_titles_removed schema (dict_set ?d1 ''properties'' (JDict ?ps'))"
      using ps by (rule entries_titles_removed_set [rotated])
    moreover have "clean_schema (JDict schema) = JDict (dict_set ?d1 ''properties'' (JDict ?ps'))"
      using ps by (simp add: Let_def)
    ultimately show ?thesis
      by (simp add: inside)
  qed
qed (simp_all add: same)

lemma titles_removed_paths:
  "titles_removed s t \<Longrightarrow>
     (\<forall>p v. ''title'' \<notin> set p \<longrightarrow> lookup_path s p = Some v \<longrightarrow>
        (\<exists>v'. lookup_path t p = Some v' \<and> titles_removed v v'))"
  "entries_titles_removed d e \<Longrightarrow>
     (\<forall>k p v. k \<noteq> ''title'' \<longrightarrow> ''title'' \<notin> set p \<longrightarrow>
        lookup_path (JDict d) (k # p) = Some v \<longrightarrow>
        (\<exists>v'. lookup_path (JDict e) (k # p) = Some v' \<and> titles_removed v v'))"
proof (induction rule: titles_removed_entries_titles_removed.inducts)
  case (same v)
  then show ?case by (auto intro: titles_removed_entries_titles_removed.same)
next
  case (inside d e)
  show ?case
  proof (intro allI impI)
    fix p v
    assume p: "''title'' \<notin> set p" and l: "lookup_path (JDict d) p = Some v"
    show "\<exists>v'. lookup_path (JDict e) p = Some v' \<and> titles_removed v v'"
    proof (cases p)
      case Nil
      with l inside.hyps show ?thesis
        by (auto intro: titles_removed_entries_titles_removed.inside)
    next
      case (Cons k ks)
      with p l inside.IH show ?thesis by auto
    qed
  qed
next
  case no_entries
  then show ?case by (simp add: dict_get_def)
next
  case (drop_title d e v)
  then show ?case by (simp add: dict_get_def)
next
  case (keep_entry v w d e k)
  then show ?case by (simp add: dict_get_def)
qed

lemma keys_clean_schema:
  "\<exists>d'. clean_schema (JDict d) = JDict d' \<and> map fst d' = filter (\<lambda>k. k \<noteq> ''title'') (map fst d)"
proof -
  have keys: "map fst (dict_pop d ''title'') = filter (\<lambda>k. k \<noteq> ''title'') (map fst d)"
    by (induction d) (auto simp: dict_pop_def)
  have "dict_contains e k" if "dict_get e k = Some v" for e k v
    using that by (auto simp: dict_contains_def dict_get_def dest: map_of_SomeD intro: rev_image_eqI)
  then show ?thesis
    by (auto simp: Let_def keys keys_dict_set split: option.splits json.splits)
qed

lemma clean_schema_fixed: "\<not> has_schema_title s \<Longrightarrow> clean_schema s = s"
proof (induction s rule: clean_schema.induct)
  case (1 schema)
  from "1.prems" have nt: "\<not> dict_contains schema ''title''" by simp
  then have pop: "dict_pop schema ''title'' = schema" by (rule dict_pop_absent)
  show ?case
  proof (cases "\<exists>ps. dict_get schema ''properties'' = Some (JDict ps)")
    case False
    then show ?thesis
      by (auto simp: Let_def pop split: option.splits json.splits)
  next
    case True
    then obtain ps where ps: "dict_get schema ''properties'' = Some (JDict ps)" by blast
    have "clean_schema sub = sub" if "(key, sub) \<in> set ps" for key sub
    proof -
      from "1.prems" ps that have "\<not> has_schema_title sub"
        by (auto simp: list_ex_iff)
      with "1.IH" [OF pop [symmetric] _ refl that refl] ps pop show ?thesis by simp
    qed
    then have "map (\<lambda>(key, sub). (key, clean_schema sub)) ps = ps"
      by (induction ps) auto
    with ps show ?thesis
      by (simp add: Let_def pop dict_set_same)
  qed
qed simp_all

lemma clean_schema_example:
  "clean_schema example_schema =
     JDict [(''type'', JStr ''object''),
            (''properties'', JDict [(''city'', JDict [(''type'', JStr ''string'')])])]"
  by (simp add: example_schema_def dict_pop_def dict_get_def)

subsection \<open>Which titles are removed\<close>

text \<open>The levels the sanitizer visits carry no title afterwards: the top level, and
  the top level of every value of a \<^verbatim>\<open>properties\<close> dictionary reached from there.\<close>

lemma clean_schema_no_schema_title: "\<not> has_schema_title (clean_schema s)"
proof (induction s rule: clean_schema.induct)
  case (1 schema)
  let ?d1 = "dict_pop schema ''title''"
  show ?case
  proof (cases "\<exists>ps. dict_get ?d1 ''properties'' = Some (JDict ps)")
    case False
    then have "clean_schema (JDict schema) = JDict ?d1"
      by (auto simp: Let_def split: option.splits json.splits)
    with False show ?thesis
      by (auto simp: dict_pop_no_key split: option.splits json.splits)
  next
    case True
    then obtain ps where ps: "dict_get ?d1 ''properties'' = Some (JDict ps)" by blast
    have ih: "\<not> has_schema_title (clean_schema sub)" if "(key, sub) \<in> set ps" for key sub
      using "1.IH" [OF refl ps refl that refl] .
    have "clean_schema (JDict schema) =
        JDict (dict_set ?d1 ''properties'' (JDict (map (\<lambda>(key, sub). (key, clean_schema sub)) ps)))"
      using ps by (simp add: Let_def)
    moreover have "\<not> list_ex (\<lambda>(key, sub). has_schema_title sub)
        (map (\<lambda>(key, sub). (key, clean_schema sub)) ps)"
      using ih by (auto simp: list_ex_iff)
    ultimately show ?thesis
      by (simp add: dict_contains_set dict_pop_no_key dict_get_set)
  qed
qed simp_all

text \<open>A property whose own name is \<^verbatim>\<open>title\<close> is kept: the keys of a \<^verbatim>\<open>properties\<close>
  dictionary are names of parameters.\<close>

lemma clean_schema_keeps_property_named_title:
  "clean_schema (JDict [(''properties'', JDict [(''title'', JDict [(''type'', JStr ''string'')])])])
   = JDict [(''properties'', JDict [(''title'', JDict [(''type'', JStr ''string'')])])]"
  by (simp add: dict_pop_def dict_get_def)

text \<open>
  Claim C1: for every nested schema mapping the result of \<^verbatim>\<open>clean_schema\<close> contains no
  \<^verbatim>\<open>title\<close> key at any depth, not only at the levels reached through \<^verbatim>\<open>properties\<close>;
  the docstring of the function says the same (it removes any title entries, nested
  ones included).  The code descends through \<^verbatim>\<open>properties\<close> only.  For the schema of a
  tool with one parameter, a list of strings, the titles of the schema and of the
  parameter go and the title of the item schema stays.
\<close>

theorem clean_schema_leaves_title_below_items:
  "clean_schema tagged_schema =
     JDict [(''type'', JStr ''object''),
            (''properties'',
             JDict [(''tags'',
                     JDict [(''type'', JStr ''array''),
                            (''items'', JDict [(''type'', JStr ''string''), (''title'', JStr ''Tag'')])])])] \<and>
   has_title (clean_schema tagged_schema)"
  by (simp add: tagged_schema_def dict_pop_def dict_get_def dict_contains_def)

subsection \<open>Idempotence\<close>

text \<open>Claim C7: the sanitizer is idempotent, \<^verbatim>\<open>clean(clean(s)) == clean(s)\<close> for every
  value \<open>s\<close>.\<close>

theorem clean_schema_idempotent: "clean_schema (clean_schema s) = clean_schema s"
proof (induction s rule: clean_schema.induct)
  case (1 schema)
  let ?d1 = "dict_pop schema ''title''"
  show ?case
  proof (cases "\<exists>ps. dict_get ?d1 ''properties'' = Some (JDict ps)")
    case False
    then have c: "clean_schema (JDict schema) = JDict ?d1"
      by (auto simp: Let_def split: option.splits json.splits)
    have "dict_pop ?d1 ''title'' = ?d1"
      by (simp add: dict_pop_absent dict_pop_no_key)
    with False c show ?thesis
      by (auto simp: Let_def split: option.splits json.splits)
  next
    case True
    then obtain ps where ps: "dict_get ?d1 ''properties'' = Some (JDict ps)" by blast
    let ?ps' = "map (\<lambda>(key, sub). (key, clean_schema sub)) ps"
    let ?d2 = "dict_set ?d1 ''properties'' (JDict ?ps')"
    have ih: "clean_schema (clean_schema sub) = clean_schema sub" if "(key, sub) \<in> set ps" for key sub
      using "1.IH" [OF refl ps refl that refl] .
    have c: "clean_schema (JDict schema) = JDict ?d2"
      using ps by (simp add: Let_def)
    have "\<not> dict_contains ?d2 ''title''"
      by (simp add: dict_contains_set dict_pop_no_key)
    then have pop: "dict_pop ?d2 ''title'' = ?d2"
      by (rule dict_pop_absent)
    have again: "map ((\<lambda>(key, sub). (key, clean_schema sub)) \<circ>
        (\<lambda>(key, sub). (key, clean_schema sub))) ps = ?ps'"
      using ih by auto
    have "clean_schema (JDict ?d2) = JDict (dict_set ?d2 ''properties'' (JDict ?ps'))"
      unfolding clean_schema_dict pop by (simp add: dict_get_set again)
    then show ?thesis
      unfolding c by (simp add: dict_set_set)
  qed
qed simp_all

subsection \<open>What the sanitizer leaves alone\<close>

text \<open>
  Claim C9: \<^verbatim>\<open>clean_schema\<close> changes nothing but \<^verbatim>\<open>title\<close> keys.  The result is the
  argument with entries of key \<^verbatim>\<open>title\<close> deleted and nothing else changed
  (\<open>titles_removed\<close>); so the value under every path of keys other than \<^verbatim>\<open>title\<close> is
  still there, with at most \<^verbatim>\<open>title\<close> entries deleted inside it; the keys of the top
  level are those of the argument without \<^verbatim>\<open>title\<close>, in the same order.  The function is
  total, and on a dictionary without \<^verbatim>\<open>properties\<close> it only pops the title, a value
  with no title at a visited level is returned as it is, and so is every value that is
  not a dictionary.
\<close>

theorem clean_schema_frame:
  "titles_removed s (clean_schema s) \<and>
   (''title'' \<notin> set p \<longrightarrow> lookup_path s p = Some v \<longrightarrow>
      (\<exists>v'. lookup_path (clean_schema s) p = Some v' \<and> titles_removed v v')) \<and>
   (\<exists>d'. clean_schema (JDict d) = JDict d' \<and>
      map fst d' = filter (\<lambda>k. k \<noteq> ''title'') (map fst d)) \<and>
   (dict_get d0 ''properties'' = None \<longrightarrow> clean_schema (JDict d0) = JDict (dict_pop d0 ''title'')) \<and>
   (\<not> has_schema_title s0 \<longrightarrow> clean_schema s0 = s0) \<and>
   (\<not> is_dict leaf \<longrightarrow> clean_schema leaf = leaf)"
proof (intro conjI impI)
  show "titles_removed s (clean_schema s)" by (rule titles_removed_clean)
next
  assume "''title'' \<notin> set p" "lookup_path s p = Some v"
  then show "\<exists>v'. lookup_path (clean_schema s) p = Some v' \<and> titles_removed v v'"
    using titles_removed_paths(1) [OF titles_removed_clean [of s]] by blast
next
  show "\<exists>d'. clean_schema (JDict d) = JDict d' \<and>
      map fst d' = filter (\<lambda>k. k \<noteq> ''title'') (map fst d)"
    by (rule keys_clean_schema)
next
  assume "dict_get d0 ''properties'' = None"
  then have "dict_get (dict_pop d0 ''title'') ''properties'' = None"
    by (induction d0) (auto simp: dict_get_def dict_pop_def split: if_splits)
  then show "clean_schema (JDict d0) = JDict (dict_pop d0 ''title'')"
    by (simp add: Let_def)
next
  assume "\<not> has_schema_title s0"
  then show "clean_schema s0 = s0" by (rule clean_schema_fixed)
next
  assume "\<not> is_dict leaf"
  then show "clean_schema leaf = leaf" by (cases leaf) simp_all
qed

text \<open>C9 on the example of the specification, on a dictionary without \<^verbatim>\<open>properties\<close>, on
  a schema whose properties are leaves, and on a list.\<close>

theorem clean_schema_frame_witness:
  "titles_removed example_schema (clean_schema example_schema) \<and>
   ''title'' \<notin> set [''properties'', ''city'', ''type''] \<and>
   lookup_path example_schema [''properties'', ''city'', ''type''] = Some (JStr ''string'') \<and>
   (\<exists>v'. lookup_path (clean_schema example_schema) [''properties'', ''city'', ''type''] = Some v' \<and>
      titles_removed (JStr ''string'') v') \<and>
   (\<exists>d'. clean_schema (JDict [(''title'', JStr ''T''), (''type'', JStr ''object'')]) = JDict d' \<and>
      map fst d' = [''type'']) \<and>
   dict_get [(''title'', JStr ''T''), (''type'', JStr ''object'')] ''properties'' = None \<and>
   clean_schema (JDict [(''title'', JStr ''T''), (''type'', JStr ''object'')]) =
     JDict [(''type'', JStr ''object'')] \<and>
   \<not> has_schema_title (JDict [(''properties'', JDict [(''n'', JInt 5), (''xs'', JList [JNull])])]) \<and>
   clean_schema (JDict [(''properties'', JDict [(''n'', JInt 5), (''xs'', JList [JNull])])]) =
     JDict [(''properties'', JDict [(''n'', JInt 5), (''xs'', JList [JNull])])] \<and>
   \<not> is_dict (JList [JDict [(''title'', JStr ''T'')]]) \<and>
   clean_schema (JList [JDict [(''title'', JStr ''T'')]]) = JList [JDict [(''title'', JStr ''T'')]]"
  using clean_schema_frame [of example_schema "[''properties'', ''city'', ''type'']" "JStr ''string''"
      "[(''title'', JStr ''T''), (''type'', JStr ''object'')]"
      "[(''title'', JStr ''T''), (''type'', JStr ''object'')]"
      "JDict [(''properties'', JDict [(''n'', JInt 5), (''xs'', JList [JNull])])]"
      "JList [JDict [(''title'', JStr ''T'')]]"]
  by (simp add: example_schema_def dict_get_def dict_pop_def dict_contains_def)

section \<open>Properties of the translator\<close>

lemma rejection_None:
  "rejection lib tool = None \<longleftrightarrow>
     (\<exists>d. description tool = Some d \<and>
        declaration_refused lib (name tool) (d @ return_type_suffix)
          (clean_schema (inputSchema tool)) = None \<and>
        tool_refused lib
          [\<lparr>fd_name = name tool, fd_description = d @ return_type_suffix,
            parameters = clean_schema (inputSchema tool)\<rparr>] = None)"
  by (auto simp: rejection_def split: option.splits)

lemma convert_loop_accepted:
  "\<forall>tool \<in> set mcp_tools. rejection lib tool = None \<Longrightarrow>
   convert_loop lib mcp_tools acc =
     Inr (acc @ map (\<lambda>tool. declaration_of tool (the (description tool))) mcp_tools)"
proof (induction mcp_tools arbitrary: acc)
  case Nil
  then show ?case by simp
next
  case (Cons tool mcp_tools)
  from Cons.prems have "rejection lib tool = None" by simp
  then obtain d where d: "description tool = Some d"
    "declaration_refused lib (name tool) (d @ return_type_suffix)
       (clean_schema (inputSchema tool)) = None"
    "tool_refused lib
       [\<lparr>fd_name = name tool, fd_description = d @ return_type_suffix,
         parameters = clean_schema (inputSchema tool)\<rparr>] = None"
    unfolding rejection_None by blast
  from Cons.prems have rest: "\<forall>tool \<in> set mcp_tools. rejection lib tool = None" by simp
  show ?case
    using d Cons.IH [OF rest]
    by (simp add: FunctionDeclaration_def Tool_def declaration_of_def Let_def)
qed

lemma convert_loop_first_rejected:
  "rejection lib tool = Some e \<Longrightarrow> convert_loop lib (tool # rest) acc = Inl e"
  by (auto simp: rejection_def FunctionDeclaration_def Tool_def Let_def split: option.splits)

lemma convert_loop_rejected:
  "\<forall>t \<in> set before. rejection lib t = None \<Longrightarrow> rejection lib tool = Some e \<Longrightarrow>
   convert_loop lib (before @ tool # rest) acc = Inl e"
proof (induction before arbitrary: acc)
  case Nil
  then show ?case using convert_loop_first_rejected by simp
next
  case (Cons t before)
  from Cons.prems have "rejection lib t = None" by simp
  then obtain d where d: "description t = Some d"
    "declaration_refused lib (name t) (d @ return_type_suffix)
       (clean_schema (inputSchema t)) = None"
    "tool_refused lib
       [\<lparr>fd_name = name t, fd_description = d @ return_type_suffix,
         parameters = clean_schema (inputSchema t)\<rparr>] = None"
    unfolding rejection_None by blast
  from Cons.prems have "\<forall>t \<in> set before. rejection lib t = None" by simp
  from Cons.IH [OF this Cons.prems(2)] d show ?case
    by (simp add: FunctionDeclaration_def Tool_def Let_def)
qed

text \<open>
  Claim C5 reads: for every list of N tool descriptors with distinct names the
  translation returns N groups in the order of the input, one declaration in each, with
  the descriptor's description followed by the fixed suffix.  A descriptor of the
  protocol need not have a description, and then the concatenation raises.
\<close>

theorem convert_raises_counterexample:
  "convert_mcp_tools_to_gemini permissive [undescribed_tool] = Inl none_plus_str"
  by (simp add: convert_mcp_tools_to_gemini_def undescribed_tool_def Let_def)

text \<open>
  C5, as the code has it.  When every descriptor has a description and the library
  raises neither on the declaration built from its name, its description with the
  suffix and its cleaned schema, nor on the group of that one declaration, the
  translation returns N groups in the order of the input, each with exactly that one
  declaration.  When a descriptor is the first for which the body of the loop raises,
  the translation raises that exception and returns nothing.
\<close>

theorem convert_one_group_per_tool:
  "((\<forall>tool \<in> set mcp_tools. \<exists>d. description tool = Some d \<and>
        declaration_refused lib (name tool) (d @ return_type_suffix)
          (clean_schema (inputSchema tool)) = None \<and>
        tool_refused lib
          [\<lparr>fd_name = name tool, fd_description = d @ return_type_suffix,
            parameters = clean_schema (inputSchema tool)\<rparr>] = None) \<longrightarrow>
    (\<exists>groups. convert_mcp_tools_to_gemini lib mcp_tools = Inr groups \<and>
       length groups = length mcp_tools \<and>
       (\<forall>i < length mcp_tools. \<exists>d.
          description (mcp_tools ! i) = Some d \<and>
          function_declarations (groups ! i) =
            [\<lparr>fd_name = name (mcp_tools ! i), fd_description = d @ return_type_suffix,
              parameters = clean_schema (inputSchema (mcp_tools ! i))\<rparr>]))) \<and>
   ((\<forall>t \<in> set before. rejection lib t = None) \<and> rejection lib tool = Some e \<longrightarrow>
      convert_mcp_tools_to_gemini lib (before @ tool # rest) = Inl e)"
proof (intro conjI impI)
  assume "\<forall>tool \<in> set mcp_tools. \<exists>d. description tool = Some d \<and>
        declaration_refused lib (name tool) (d @ return_type_suffix)
          (clean_schema (inputSchema tool)) = None \<and>
        tool_refused lib
          [\<lparr>fd_name = name tool, fd_description = d @ return_type_suffix,
            parameters = clean_schema (inputSchema tool)\<rparr>] = None"
  then have accepted: "\<forall>tool \<in> set mcp_tools. rejection lib tool = None"
    unfolding rejection_None .
  let ?groups = "map (\<lambda>tool. declaration_of tool (the (description tool))) mcp_tools"
  have "convert_mcp_tools_to_gemini lib mcp_tools = Inr ?groups"
    using convert_loop_accepted [OF accepted, of "[]"] by (simp add: convert_mcp_tools_to_gemini_def)
  moreover have "length ?groups = length mcp_tools" by simp
  moreover have "\<exists>d. description (mcp_tools ! i) = Some d \<and>
        function_declarations (?groups ! i) =
          [\<lparr>fd_name = name (mcp_tools ! i), fd_description = d @ return_type_suffix,
            parameters = clean_schema (inputSchema (mcp_tools ! i))\<rparr>]"
    if "i < length mcp_tools" for i
  proof -
    from that accepted have "rejection lib (mcp_tools ! i) = None" by simp
    then obtain d where "description (mcp_tools ! i) = Some d"
      unfolding rejection_None by blast
    with that show ?thesis by (simp add: declaration_of_def)
  qed
  ultimately show "\<exists>groups. convert_mcp_tools_to_gemini lib mcp_tools = Inr groups \<and>
       length groups = length mcp_tools \<and>
       (\<forall>i < length mcp_tools. \<exists>d.
          description (mcp_tools ! i) = Some d \<and>
          function_declarations (groups ! i) =
            [\<lparr>fd_name = name (mcp_tools ! i), fd_description = d @ return_type_suffix,
              parameters = clean_schema (inputSchema (mcp_tools ! i))\<rparr>])"
    by blast
next
  assume "(\<forall>t \<in> set before. rejection lib t = None) \<and> rejection lib tool = Some e"
  then show "convert_mcp_tools_to_gemini lib (before @ tool # rest) = Inl e"
    using convert_loop_rejected [of before lib tool e rest "[]"]
    by (simp add: convert_mcp_tools_to_gemini_def)
qed

text \<open>C5 on the two example tools with a library that refuses nothing, and on these
  followed by the tool whose cleaned schema keeps a title, with a library that refuses
  such a schema.\<close>

lemma example_tools_accepted:
  "rejection permissive (example_tools ! 0) = None" "rejection permissive (example_tools ! 1) = None"
  "rejection strict (example_tools ! 0) = None" "rejection strict (example_tools ! 1) = None"
  by (simp_all add: rejection_def permissive_def strict_def example_tools_def example_schema_def
      dict_pop_def dict_get_def dict_contains_def)

lemma tagged_tool_rejected:
  "rejection strict tagged_tool = Some (Exception ''Unknown field for Schema: title'')"
  by (simp add: rejection_def strict_def tagged_tool_def tagged_schema_def
      dict_pop_def dict_get_def dict_contains_def)

lemma eval_convert_example_tools:
  "convert_mcp_tools_to_gemini permissive example_tools =
     Inr [\<lparr>function_declarations =
             [\<lparr>fd_name = ''web_search'',
               fd_description = ''Search the web using Tavily The tool returns its result as a string.'',
               parameters = JDict [(''type'', JStr ''object''),
                 (''properties'', JDict [(''city'', JDict [(''type'', JStr ''string'')])])]\<rparr>]\<rparr>,
          \<lparr>function_declarations =
             [\<lparr>fd_name = ''add_integers'',
               fd_description = ''Add two positive integers The tool returns its result as a string.'',
               parameters = JDict [(''type'', JStr ''object'')]\<rparr>]\<rparr>]"
  by (simp add: convert_mcp_tools_to_gemini_def example_tools_def example_schema_def
      return_type_suffix_def dict_pop_def dict_get_def Let_def FunctionDeclaration_def Tool_def
      permissive_def)

theorem convert_one_group_per_tool_witness:
  "list_all (\<lambda>tool. \<exists>d. description tool = Some d \<and>
      declaration_refused permissive (name tool) (d @ return_type_suffix)
        (clean_schema (inputSchema tool)) = None \<and>
      tool_refused permissive
        [\<lparr>fd_name = name tool, fd_description = d @ return_type_suffix,
          parameters = clean_schema (inputSchema tool)\<rparr>] = None) example_tools \<and>
   (\<exists>groups. convert_mcp_tools_to_gemini permissive example_tools = Inr groups \<and>
      length groups = length example_tools \<and>
      (\<forall>i < length example_tools. \<exists>d.
         description (example_tools ! i) = Some d \<and>
         function_declarations (groups ! i) =
           [\<lparr>fd_name = name (example_tools ! i), fd_description = d @ return_type_suffix,
             parameters = clean_schema (inputSchema (example_tools ! i))\<rparr>])) \<and>
   convert_mcp_tools_to_gemini permissive example_tools =
     Inr [\<lparr>function_declarations =
             [\<lparr>fd_name = ''web_search'',
               fd_description = ''Search the web using Tavily The tool returns its result as a string.'',
               parameters = JDict [(''type'', JStr ''object''),
                 (''properties'', JDict [(''city'', JDict [(''type'', JStr ''string'')])])]\<rparr>]\<rparr>,
          \<lparr>function_declarations =
             [\<lparr>fd_name = ''add_integers'',
               fd_description = ''Add two positive integers The tool returns its result as a string.'',
               parameters = JDict [(''type'', JStr ''object'')]\<rparr>]\<rparr>] \<and>
   list_all (\<lambda>t. rejection strict t = None) example_tools \<and>
   rejection strict tagged_tool = Some (Exception ''Unknown field for Schema: title'') \<and>
   convert_mcp_tools_to_gemini strict (example_tools @ tagged_tool # [undescribed_tool])
     = Inl (Exception ''Unknown field for Schema: title'')"
proof -
  have accepted: "list_all (\<lambda>tool. \<exists>d. description tool = Some d \<and>
      declaration_refused permissive (name tool) (d @ return_type_suffix)
        (clean_schema (inputSchema tool)) = None \<and>
      tool_refused permissive
        [\<lparr>fd_name = name tool, fd_description = d @ return_type_suffix,
          parameters = clean_schema (inputSchema tool)\<rparr>] = None) example_tools"
    by (simp add: example_tools_def permissive_def)
  note groups = convert_one_group_per_tool [of example_tools permissive, THEN conjunct1, THEN mp,
      OF accepted [unfolded list_all_iff]]
  have before: "list_all (\<lambda>t. rejection strict t = None) example_tools"
    using example_tools_accepted(3,4) by (simp add: example_tools_def)
  have first: "(\<forall>t \<in> set example_tools. rejection strict t = None) \<and>
      rejection strict tagged_tool = Some (Exception ''Unknown field for Schema: title'')"
    using before tagged_tool_rejected by (simp add: list_all_iff)
  note raised = convert_one_group_per_tool [of _ strict example_tools tagged_tool
      "Exception ''Unknown field for Schema: title''" "[undescribed_tool]",
      THEN conjunct2, THEN mp, OF first]
  show ?thesis
    by (intro conjI) (rule accepted groups eval_convert_example_tools before tagged_tool_rejected raised)+
qed

section \<open>Properties of the server tools\<close>

text \<open>
  Claim C10: when the search client raises an exception, \<^verbatim>\<open>web_search\<close> does not raise
  but returns the dictionary with the one key \<^verbatim>\<open>error\<close> and the exception's text: a
  dictionary where the annotation promises a list.
\<close>

theorem web_search_error_mapping:
  assumes "tavily_search query = Inl (Exception msg)"
  shows "web_search tavily_search query = Inr (JDict [(''error'', JStr msg)]) \<and>
         (\<forall>r. web_search tavily_search query = Inr r \<longrightarrow> is_dict r \<and> \<not> is_list r)"
  using assms by (simp add: web_search_def try_except_def)

text \<open>C10 with a search client that times out.\<close>

theorem web_search_error_mapping_witness:
  "(\<lambda>q. Inl (Exception ''timed out'')) ''news'' = (Inl (Exception ''timed out'') :: exn + dict) \<and>
   web_search (\<lambda>q. Inl (Exception ''timed out'')) ''news'' = Inr (JDict [(''error'', JStr ''timed out'')]) \<and>
   is_dict (JDict [(''error'', JStr ''timed out'')]) \<and> \<not> is_list (JDict [(''error'', JStr ''timed out'')])"
  using web_search_error_mapping [of "\<lambda>q. Inl (Exception ''timed out'')" "''news''" "''timed out''"]
  by simp

lemma run_command_result: "run_command shell command = Inr popen_missing_args"
  by (simp add: run_command_def subprocess_run_def try_except_def)

text \<open>
  Claim C3 says that \<^verbatim>\<open>run_command\<close> runs the command in the workspace and returns its
  output.  The call of \<^verbatim>\<open>subprocess.run\<close> does not pass the command: whatever the
  command and whatever the operating system would do with it, the result is the text of
  the \<^verbatim>\<open>TypeError\<close>.
\<close>

theorem run_command_never_runs:
  "run_command (\<lambda>cwd args. Inr \<lparr>stdout = ''out of '' @ args, stderr = []\<rparr>) ''dir'' = Inr popen_missing_args \<and>
   popen_missing_args \<noteq> ''out of dir''"
  by (simp add: run_command_def subprocess_run_def try_except_def popen_missing_args_def)

section \<open>Properties of the connection\<close>

lemma created_objects_append [simp]:
  "created_objects (xs @ ys) = created_objects xs @ created_objects ys"
  by (induction xs rule: created_objects.induct) auto

lemma cleanup_self: "self (snd (cleanup env s)) = self s"
  by (auto simp: cleanup_def perform_def split: option.splits prod.splits sum.splits)

lemma cleanup_exits:
  "\<exists>exits. trace (snd (cleanup env s)) = trace s @ exits \<and> prefix exits (pending_exits (self s)) \<and>
     (fst (cleanup env s) = Inr () \<longrightarrow> exits = pending_exits (self s))"
  by (auto simp: cleanup_def perform_def pending_exits_def split: option.splits prod.splits sum.splits)

lemma connect_created:
  "pending_exits (self (snd (connect_to_sse_server lib env url (fresh w)))) =
     rev (map Aexit (created_objects (trace (snd (connect_to_sse_server lib env url (fresh w))))))"
  by (auto simp: connect_to_sse_server_def construct_def perform_def pending_exits_def fresh_def
      init_client_def split: option.splits prod.splits sum.splits)

text \<open>The connections of the example world.\<close>

lemma eval_connect_half:
  "connect_to_sse_server permissive
      (example_env ok_exit (Inl (Exception ''bad streams'')) (Inr JNull) empty_response empty_response)
      ''http://localhost:8081/sse'' (fresh ())
     = (Inl (Exception ''bad streams''), half_connected\<lparr>trace := [Created 1, Aenter 1]\<rparr>)"
  by (simp add: connect_to_sse_server_def construct_def perform_def example_env_def
      half_connected_def fresh_def init_client_def)






text \<open>
  Claim C4 reads: \<^verbatim>\<open>cleanup\<close> never raises, before the connection completes or called
  twice, and an error of a context's exit is swallowed.  The body of \<^verbatim>\<open>cleanup\<close> has
  no handler: where the exit of a context raises, \<^verbatim>\<open>cleanup\<close> raises.
\<close>

theorem cleanup_raises_counterexample:
  "fst (cleanup (example_env broken_exit (Inr 2) (Inr JNull) empty_response empty_response) connected)
     = Inl (Exception ''stream closed'')"
  by (simp add: cleanup_def perform_def example_env_def connected_def broken_exit_def)

text \<open>
  C4, as the code has it: on a client that holds no context, \<^verbatim>\<open>cleanup\<close> does nothing
  and returns; where no exit raises it returns, also when called again; it assigns no
  attribute, so a second call makes the same exits; an exception of the session
  context's exit leaves \<^verbatim>\<open>cleanup\<close> before the stream context's exit is tried, an
  exception of the stream context's exit leaves it as well, and \<^verbatim>\<open>cleanup\<close> raises
  nothing but what an exit raised.
\<close>

theorem cleanup_passes_on_what_aexit_raises:
  "(session_context (self s) = None \<and> streams_context (self s) = None \<longrightarrow>
      cleanup env s = (Inr (), s)) \<and>
   ((\<forall>ctx w. fst (aexit env ctx w) = Inr ()) \<longrightarrow>
      fst (cleanup env s) = Inr () \<and> fst (cleanup env (snd (cleanup env s))) = Inr ()) \<and>
   (session_context (self s) = Some c \<and> fst (aexit env c (world s)) = Inl e \<longrightarrow>
      fst (cleanup env s) = Inl e \<and> trace (snd (cleanup env s)) = trace s @ [Aexit c]) \<and>
   (streams_context (self s') = Some c' \<and>
    (case session_context (self s') of
       None \<Rightarrow> fst (aexit env c' (world s')) = Inl e'
     | Some c0 \<Rightarrow> fst (aexit env c0 (world s')) = Inr () \<and>
         fst (aexit env c' (snd (aexit env c0 (world s')))) = Inl e') \<longrightarrow>
      fst (cleanup env s') = Inl e') \<and>
   (fst (cleanup env s) = Inl e'' \<longrightarrow> (\<exists>ctx w. fst (aexit env ctx w) = Inl e'')) \<and>
   self (snd (cleanup env s)) = self s"
proof (intro conjI impI)
  assume "session_context (self s) = None \<and> streams_context (self s) = None"
  then show "cleanup env s = (Inr (), s)" by (simp add: cleanup_def)
next
  assume ok: "\<forall>ctx w. fst (aexit env ctx w) = Inr ()"
  have ok': "r = Inr ()" if "aexit env ctx w = (r, w')" for ctx w r w'
    using ok that by (metis fst_conv)
  have "fst (cleanup env t) = Inr ()" for t
    by (auto simp: cleanup_def perform_def split: option.splits prod.splits sum.splits dest: ok')
  then show "fst (cleanup env s) = Inr ()" "fst (cleanup env (snd (cleanup env s))) = Inr ()"
    by blast+
next
  assume "session_context (self s) = Some c \<and> fst (aexit env c (world s)) = Inl e"
  then show "fst (cleanup env s) = Inl e" "trace (snd (cleanup env s)) = trace s @ [Aexit c]"
    by (auto simp: cleanup_def perform_def split: prod.splits sum.splits)
next
  assume "streams_context (self s') = Some c' \<and>
    (case session_context (self s') of
       None \<Rightarrow> fst (aexit env c' (world s')) = Inl e'
     | Some c0 \<Rightarrow> fst (aexit env c0 (world s')) = Inr () \<and>
         fst (aexit env c' (snd (aexit env c0 (world s')))) = Inl e')"
  then show "fst (cleanup env s') = Inl e'"
    by (auto simp: cleanup_def perform_def split: option.splits prod.splits sum.splits)
next
  assume "fst (cleanup env s) = Inl e''"
  then show "\<exists>ctx w. fst (aexit env ctx w) = Inl e''"
    by (auto simp: cleanup_def perform_def split: option.splits prod.splits sum.splits)
      (metis fst_conv)+
next
  show "self (snd (cleanup env s)) = self s" by (rule cleanup_self)
qed

text \<open>C4 in the example world: a new client; exits that return; exits that raise; the
  stream context's exit alone raising.\<close>

theorem cleanup_passes_on_what_aexit_raises_witness:
  "session_context (self (fresh ())) = (None :: nat option) \<and>
   streams_context (self (fresh ())) = (None :: nat option) \<and>
   cleanup (example_env broken_exit (Inr 2) (Inr JNull) empty_response empty_response) (fresh ())
     = (Inr (), fresh ()) \<and>
   (\<forall>ctx w. fst (aexit (example_env ok_exit (Inr 2) (Inr JNull) empty_response empty_response) ctx w)
      = Inr ()) \<and>
   fst (cleanup (example_env ok_exit (Inr 2) (Inr JNull) empty_response empty_response) connected)
     = Inr () \<and>
   fst (cleanup (example_env ok_exit (Inr 2) (Inr JNull) empty_response empty_response)
      (snd (cleanup (example_env ok_exit (Inr 2) (Inr JNull) empty_response empty_response) connected)))
     = Inr () \<and>
   session_context (self connected) = Some 2 \<and>
   fst (aexit (example_env broken_exit (Inr 2) (Inr JNull) empty_response empty_response) 2
      (world connected)) = Inl (Exception ''stream closed'') \<and>
   fst (cleanup (example_env broken_exit (Inr 2) (Inr JNull) empty_response empty_response) connected)
     = Inl (Exception ''stream closed'') \<and>
   trace (snd (cleanup (example_env broken_exit (Inr 2) (Inr JNull) empty_response empty_response)
      connected)) = [Aexit 2] \<and>
   streams_context (self connected) = Some 1 \<and>
   fst (aexit (example_env stream_exit_fails (Inr 2) (Inr JNull) empty_response empty_response) 2
      (world connected)) = Inr () \<and>
   fst (aexit (example_env stream_exit_fails (Inr 2) (Inr JNull) empty_response empty_response) 1
      (world connected)) = Inl (Exception ''stream closed'') \<and>
   fst (cleanup (example_env stream_exit_fails (Inr 2) (Inr JNull) empty_response empty_response)
      connected) = Inl (Exception ''stream closed'') \<and>
   (\<exists>ctx w. fst (aexit (example_env stream_exit_fails (Inr 2) (Inr JNull) empty_response empty_response)
      ctx w) = Inl (Exception ''stream closed'')) \<and>
   self (snd (cleanup (example_env stream_exit_fails (Inr 2) (Inr JNull) empty_response empty_response)
      connected)) = self connected"
proof -
  let ?ok = "example_env ok_exit (Inr 2) (Inr JNull) empty_response empty_response"
  let ?broken = "example_env broken_exit (Inr 2) (Inr JNull) empty_response empty_response"
  let ?late = "example_env stream_exit_fails (Inr 2) (Inr JNull) empty_response empty_response"
  let ?e = "Exception ''stream closed''"
  have none: "session_context (self (fresh ())) = (None :: nat option) \<and>
      streams_context (self (fresh ())) = (None :: nat option)"
    by (simp add: fresh_def init_client_def)
  have quiet: "\<forall>ctx w. fst (aexit ?ok ctx w) = Inr ()"
    by (simp add: example_env_def ok_exit_def)
  have first: "session_context (self connected) = Some 2 \<and>
      fst (aexit ?broken 2 (world connected)) = Inl ?e"
    by (simp add: example_env_def connected_def broken_exit_def)
  have second: "streams_context (self connected) = Some 1 \<and>
      (case session_context (self connected) of
         None \<Rightarrow> fst (aexit ?late 1 (world connected)) = Inl ?e
       | Some c0 \<Rightarrow> fst (aexit ?late c0 (world connected)) = Inr () \<and>
           fst (aexit ?late 1 (snd (aexit ?late c0 (world connected)))) = Inl ?e)"
    by (simp add: example_env_def connected_def stream_exit_fails_def)
  have late: "fst (aexit ?late 2 (world connected)) = Inr () \<and>
      fst (aexit ?late 1 (world connected)) = Inl ?e"
    by (simp add: example_env_def connected_def stream_exit_fails_def)
  note a = cleanup_passes_on_what_aexit_raises [of "fresh ()" ?broken, THEN conjunct1, THEN mp, OF none]
  note b = cleanup_passes_on_what_aexit_raises [of connected ?ok, THEN conjunct2, THEN conjunct1,
      THEN mp, OF quiet]
  note c = cleanup_passes_on_what_aexit_raises [of connected ?broken 2 ?e,
      THEN conjunct2, THEN conjunct2, THEN conjunct1, THEN mp, OF first]
  note d = cleanup_passes_on_what_aexit_raises [of connected ?late _ _ connected 1 ?e,
      THEN conjunct2, THEN conjunct2, THEN conjunct2, THEN conjunct1, THEN mp, OF second]
  note e = cleanup_passes_on_what_aexit_raises [of connected ?late,
      THEN conjunct2, THEN conjunct2, THEN conjunct2, THEN conjunct2, THEN conjunct2]
  note f = cleanup_passes_on_what_aexit_raises [of connected ?late _ _ _ _ _ ?e,
      THEN conjunct2, THEN conjunct2, THEN conjunct2, THEN conjunct2, THEN conjunct1,
      THEN mp, OF d]
  have tr: "trace connected = []" by (simp add: connected_def)
  from none a quiet b first c second d late e f tr show ?thesis
    by (intro conjI) (simp_all only: simp_thms append_Nil)
qed

section \<open>Properties of the tool-call loop\<close>

subsection \<open>The calls a query makes\<close>

lemma calls_of_parts_simps [simp]:
  "calls_of_parts [] = []"
  "calls_of_parts (p # ps) =
     (case function_call p of None \<Rightarrow> calls_of_parts ps | Some fc \<Rightarrow> fc # calls_of_parts ps)"
  by (simp_all add: calls_of_parts_def split: option.splits)

lemma function_calls_of_Cons:
  "function_calls_of \<lparr>candidates = c # cs\<rparr> =
     calls_of_parts (content_parts c) @ function_calls_of \<lparr>candidates = cs\<rparr>"
  by (simp add: function_calls_of_def calls_of_parts_def)

lemma generate_calls_append [simp]:
  "generate_calls (xs @ ys) = generate_calls xs @ generate_calls ys"
  by (induction xs rule: generate_calls.induct) auto

lemma tool_calls_append [simp]:
  "tool_calls (xs @ ys) = tool_calls xs @ tool_calls ys"
  by (induction xs rule: tool_calls.induct) auto

lemma loop_effect_refl: "loop_effect s s True []"
  by (simp add: loop_effect_def)

lemma loop_effect_stop:
  "loop_effect s s1 False fcs1 \<Longrightarrow> loop_effect s s1 False (fcs1 @ fcs2)"
  unfolding loop_effect_def
  by (elim conjE exE, intro conjI, assumption, rule_tac x = evs in exI) auto

lemma loop_effect_seq:
  assumes "loop_effect s s0 True fcs1" and "loop_effect s0 s1 returned fcs2"
  shows "loop_effect s s1 returned (fcs1 @ fcs2)"
proof -
  from assms(1) obtain evs0 where
    e0: "self s0 = self s" "trace s0 = trace s @ evs0"
      "session (self s) = None \<longrightarrow> tool_calls evs0 = []"
      "length (generate_calls evs0) = length fcs1"
      "session (self s) \<noteq> None \<longrightarrow> tool_calls evs0 = map expected_call fcs1"
    unfolding loop_effect_def by auto
  from assms(2) obtain evs1 where
    e1: "self s1 = self s0" "trace s1 = trace s0 @ evs1"
      "prefix (tool_calls evs1) (map expected_call fcs2)"
      "session (self s0) = None \<longrightarrow> tool_calls evs1 = []"
      "length (generate_calls evs1) \<le> length fcs2"
      "returned \<longrightarrow> length (generate_calls evs1) = length fcs2 \<and>
         (session (self s0) \<noteq> None \<longrightarrow> tool_calls evs1 = map expected_call fcs2)"
    unfolding loop_effect_def by auto
  show ?thesis
    unfolding loop_effect_def
  proof (intro conjI exI [of _ "evs0 @ evs1"])
    show "prefix (tool_calls (evs0 @ evs1)) (map expected_call (fcs1 @ fcs2))"
      using e0 e1 by (cases "session (self s)") auto
  qed (use e0 e1 in auto)
qed

lemma function_response_of_effect:
  assumes "function_response_of env n a s = (r, s1)"
  shows "self s1 = self s \<and> (\<exists>evs. trace s1 = trace s @ evs \<and> generate_calls evs = [] \<and>
           tool_calls evs = (case session (self s) of None \<Rightarrow> [] | Some sess \<Rightarrow> [(n, a)]))"
  using assms
  by (auto simp: function_response_of_def perform_def
      split: option.splits prod.splits sum.splits if_splits)

lemma call_branch_effect:
  assumes "call_branch env decls query fc ft s = (r, s1)"
  shows "loop_effect s s1 (\<not> isl r) [fc]"
proof (cases "function_response_of env (fc_name fc) (tool_args_of fc) s")
  case (Pair r0 s0)
  from function_response_of_effect [OF Pair] obtain evs0 where
    e0: "self s0 = self s" "trace s0 = trace s @ evs0" "generate_calls evs0 = []"
      "tool_calls evs0 = (case session (self s) of None \<Rightarrow> [] | Some sess \<Rightarrow> [expected_call fc])"
    unfolding expected_call_def by blast
  show ?thesis
  proof (cases r0)
    case (Inl e)
    with assms Pair have "r = Inl e" "s1 = s0"
      by (simp_all add: call_branch_def Let_def)
    with e0 show ?thesis
      unfolding loop_effect_def
      by (intro conjI exI [of _ evs0]) (auto split: option.splits)
  next
    case (Inr fr)
    let ?turns = "continuation_turns query (fc_name fc) (tool_args_of fc) fr"
    from assms Pair Inr have
      "s1 = s0\<lparr>world := snd (generate_content env decls ?turns (world s0)),
              trace := trace s0 @ [Generate ?turns]\<rparr>"
      by (auto simp: call_branch_def Let_def perform_def split: prod.splits sum.splits)
    with e0 show ?thesis
      unfolding loop_effect_def
      by (intro conjI exI [of _ "evs0 @ [Generate ?turns]"]) (auto split: option.splits)
  qed
qed

lemma parts_loop_effect:
  "parts_loop env decls query ps ft s = (r, s1) \<Longrightarrow>
   loop_effect s s1 (\<not> isl r) (calls_of_parts ps)"
proof (induction ps arbitrary: ft s)
  case Nil
  then show ?case by (auto simp: loop_effect_refl)
next
  case (Cons p ps)
  show ?case
  proof (cases "function_call p")
    case None
    with Cons.prems have "parts_loop env decls query ps (ft @ [part_text p]) s = (r, s1)" by simp
    from Cons.IH [OF this] None show ?thesis by simp
  next
    case (Some fc)
    obtain r0 s0 where step: "call_branch env decls query fc ft s = (r0, s0)"
      by (cases "call_branch env decls query fc ft s")
    note e0 = call_branch_effect [OF step]
    show ?thesis
    proof (cases r0)
      case (Inl e)
      with Cons.prems Some step have "r = Inl e" "s1 = s0" by simp_all
      with e0 Inl Some loop_effect_stop [of s s0 "[fc]" "calls_of_parts ps"]
      show ?thesis by simp
    next
      case (Inr ft1)
      with Cons.prems Some step have "parts_loop env decls query ps ft1 s0 = (r, s1)" by simp
      from Cons.IH [OF this] e0 Inr Some
        loop_effect_seq [of s s0 "[fc]" s1 "\<not> isl r" "calls_of_parts ps"]
      show ?thesis by simp
    qed
  qed
qed

lemma candidates_loop_effect:
  "candidates_loop env decls query cs ft s = (r, s1) \<Longrightarrow>
   loop_effect s s1 (\<not> isl r) (function_calls_of \<lparr>candidates = cs\<rparr>)"
proof (induction cs arbitrary: ft s)
  case Nil
  then show ?case by (auto simp: loop_effect_refl function_calls_of_def)
next
  case (Cons c cs)
  obtain r0 s0 where step: "parts_loop env decls query (content_parts c) ft s = (r0, s0)"
    by (cases "parts_loop env decls query (content_parts c) ft s")
  note e0 = parts_loop_effect [OF step]
  show ?case
  proof (cases r0)
    case (Inl e)
    with Cons.prems step have "r = Inl e" "s1 = s0" by simp_all
    with e0 Inl loop_effect_stop show ?thesis
      unfolding function_calls_of_Cons by fastforce
  next
    case (Inr ft1)
    with Cons.prems step have "candidates_loop env decls query cs ft1 s0 = (r, s1)" by simp
    from Cons.IH [OF this] e0 Inr loop_effect_seq show ?thesis
      unfolding function_calls_of_Cons by fastforce
  qed
qed

lemma response_eta: "\<lparr>candidates = candidates response\<rparr> = (response :: response)"
  by simp

text \<open>A query whose first model call is not made or raises ends there.\<close>

lemma process_query_without_response:
  assumes "self_function_declarations (self s) = None \<or>
    (\<exists>decls e w1. self_function_declarations (self s) = Some decls \<and>
       generate_content env decls [UserTurn query] (world s) = (Inl e, w1))"
  shows "\<exists>e evs. fst (process_query env query s) = Inl e \<and>
    trace (snd (process_query env query s)) = trace s @ evs \<and>
    length (generate_calls evs) \<le> 1 \<and> tool_calls evs = []"
  using assms by (auto simp: process_query_def perform_def)

text \<open>
  Claim C6: a query makes at most one more model call for each function call of the
  first response, and a function call of a later response is never sent to the tool.
  The tool calls of a query are, in order, a prefix of the function calls of the first
  response, so no other call is ever dispatched; the model calls are at most one more
  than those function calls, and exactly one more when the query returns.
\<close>

theorem process_query_single_hop:
  assumes "self_function_declarations (self s) = Some decls"
    and "generate_content env decls [UserTurn query] (world s) = (Inr response, w1)"
  shows "\<exists>evs. trace (snd (process_query env query s)) = trace s @ evs \<and>
     length (generate_calls evs) \<le> 1 + length (function_calls_of response) \<and>
     prefix (tool_calls evs)
       (map (\<lambda>fc. (fc_name fc, tool_args_of fc)) (function_calls_of response)) \<and>
     ((\<exists>text. fst (process_query env query s) = Inr text) \<longrightarrow>
        length (generate_calls evs) = 1 + length (function_calls_of response))"
proof -
  let ?s1 = "s\<lparr>world := w1, trace := trace s @ [Generate [UserTurn query]]\<rparr>"
  obtain r s2 where loop: "candidates_loop env decls query (candidates response) [] ?s1 = (r, s2)"
    by (cases "candidates_loop env decls query (candidates response) [] ?s1")
  from candidates_loop_effect [OF loop] obtain evs where
    e: "trace s2 = trace ?s1 @ evs"
      "prefix (tool_calls evs) (map expected_call (function_calls_of response))"
      "length (generate_calls evs) \<le> length (function_calls_of response)"
      "\<not> isl r \<longrightarrow> length (generate_calls evs) = length (function_calls_of response)"
    unfolding loop_effect_def response_eta by auto
  have pq: "process_query env query s =
      (case r of Inl e \<Rightarrow> (Inl e, s2) | Inr final_text \<Rightarrow> (Inr (join_lines final_text), s2))"
    using assms loop by (simp add: process_query_def perform_def split: sum.splits)
  have "trace (snd (process_query env query s)) = trace s @ (Generate [UserTurn query] # evs)"
    using e(1) by (simp add: pq split: sum.splits)
  moreover have "(\<exists>text. fst (process_query env query s) = Inr text) \<longrightarrow> \<not> isl r"
    by (auto simp: pq split: sum.splits)
  ultimately show ?thesis
    using e(2-4) unfolding expected_call_def
    by (intro exI [of _ "Generate [UserTurn query] # evs"]) auto
qed

text \<open>Two runs in the example world: the tool raises and the model then says nothing;
  the tool returns and the model then asks for a further tool.\<close>

lemmas run_defs = process_query_def perform_def call_branch_def function_response_of_def
  try_except_def leading_text_def continuation_turns_def tool_args_of_def Let_def

lemma eval_query_raises:
  "process_query
      (example_env ok_exit (Inr 2) (Inl (Exception ''boom'')) call_response empty_response)
      ''add 2 and 3'' connected
   = (Inr [], connected\<lparr>trace :=
        [Generate [UserTurn ''add 2 and 3''],
         CallTool 12 ''add_integers'' [(''num1'', JInt 2), (''num2'', JInt 3)],
         Generate [UserTurn ''add 2 and 3'',
                   ModelCallTurn ''add_integers'' [(''num1'', JInt 2), (''num2'', JInt 3)],
                   FunctionTurn ''add_integers'' ''Tool error: boom'']]\<rparr>)"
  by (simp add: run_defs example_env_def connected_def add_call_def call_response_def
      empty_response_def)

lemma eval_query_second_call:
  "process_query
      (example_env ok_exit (Inr 2) (Inr (JDict [(''result'', JInt 5)])) call_and_text_response
         search_call_response)
      ''add 2 and 3'' connected
   = (Inr ''\<newline>Let me add them.'', connected\<lparr>trace :=
        [Generate [UserTurn ''add 2 and 3''],
         CallTool 12 ''add_integers'' [(''num1'', JInt 2), (''num2'', JInt 3)],
         Generate [UserTurn ''add 2 and 3'',
                   ModelCallTurn ''add_integers'' [(''num1'', JInt 2), (''num2'', JInt 3)],
                   FunctionTurn ''add_integers'' ''{result: 5}'']]\<rparr>)"
  by (simp add: run_defs example_env_def connected_def add_call_def call_and_text_response_def
      search_call_response_def)

text \<open>C6 in the example world: the model's second answer asks for \<^verbatim>\<open>web_search\<close>, and the
  only tool call of the run is the \<^verbatim>\<open>add_integers\<close> of the first answer.\<close>

theorem process_query_single_hop_witness:
  "self_function_declarations (self connected) = Some [] \<and>
   generate_content
      (example_env ok_exit (Inr 2) (Inr (JDict [(''result'', JInt 5)])) call_and_text_response
         search_call_response)
      [] [UserTurn ''add 2 and 3''] (world connected) = (Inr call_and_text_response, ()) \<and>
   function_calls_of call_and_text_response = [add_call] \<and>
   function_calls_of search_call_response \<noteq> [] \<and>
   (\<exists>evs. trace (snd (process_query
        (example_env ok_exit (Inr 2) (Inr (JDict [(''result'', JInt 5)])) call_and_text_response
           search_call_response)
        ''add 2 and 3'' connected)) = trace connected @ evs \<and>
      length (generate_calls evs) \<le> 1 + length [add_call] \<and>
      prefix (tool_calls evs) (map (\<lambda>fc. (fc_name fc, tool_args_of fc)) [add_call])) \<and>
   trace (snd (process_query
        (example_env ok_exit (Inr 2) (Inr (JDict [(''result'', JInt 5)])) call_and_text_response
           search_call_response)
        ''add 2 and 3'' connected)) =
     [Generate [UserTurn ''add 2 and 3''],
      CallTool 12 ''add_integers'' [(''num1'', JInt 2), (''num2'', JInt 3)],
      Generate [UserTurn ''add 2 and 3'',
                ModelCallTurn ''add_integers'' [(''num1'', JInt 2), (''num2'', JInt 3)],
                FunctionTurn ''add_integers'' ''{result: 5}'']]"
proof -
  let ?env = "example_env ok_exit (Inr 2) (Inr (JDict [(''result'', JInt 5)])) call_and_text_response
    search_call_response"
  have decls: "self_function_declarations (self connected) = Some []"
    by (simp add: connected_def)
  have first: "generate_content ?env [] [UserTurn ''add 2 and 3''] (world connected)
      = (Inr call_and_text_response, ())"
    by (simp add: example_env_def)
  have calls: "function_calls_of call_and_text_response = [add_call]"
    by (simp add: function_calls_of_def call_and_text_response_def)
  have more: "function_calls_of search_call_response \<noteq> []"
    by (simp add: function_calls_of_def search_call_response_def)
  from process_query_single_hop [OF decls first]
  have bound: "\<exists>evs. trace (snd (process_query ?env ''add 2 and 3'' connected)) = trace connected @ evs \<and>
      length (generate_calls evs) \<le> 1 + length [add_call] \<and>
      prefix (tool_calls evs) (map (\<lambda>fc. (fc_name fc, tool_args_of fc)) [add_call])"
    unfolding calls by blast
  have run: "trace (snd (process_query ?env ''add 2 and 3'' connected)) =
     [Generate [UserTurn ''add 2 and 3''],
      CallTool 12 ''add_integers'' [(''num1'', JInt 2), (''num2'', JInt 3)],
      Generate [UserTurn ''add 2 and 3'',
                ModelCallTurn ''add_integers'' [(''num1'', JInt 2), (''num2'', JInt 3)],
                FunctionTurn ''add_integers'' ''{result: 5}'']]"
    by (simp add: eval_query_second_call)
  show ?thesis
    by (intro conjI) (rule decls first calls more bound run)+
qed

subsection \<open>A tool call that raises\<close>

lemma call_branch_error:
  assumes m: "model_returns env" and t: "tool_raises env sess"
    and sess: "session (self s) = Some sess"
  shows "\<exists>ft1 s1 turns. call_branch env decls query fc ft s = (Inr ft1, s1) \<and>
     self s1 = self s \<and>
     generate_calls (trace s1) = generate_calls (trace s) @ [turns] \<and>
     error_turns env sess query fc turns"
proof -
  from t obtain msg w' where
    call: "call_tool env sess (fc_name fc) (tool_args_of fc) (world s) = (Inl (Exception msg), w')"
    unfolding tool_raises_def by blast
  let ?s0 = "s\<lparr>world := w', trace := trace s @ [CallTool sess (fc_name fc) (tool_args_of fc)]\<rparr>"
  let ?turns = "continuation_turns query (fc_name fc) (tool_args_of fc) (''Tool error: '' @ msg)"
  have fr: "function_response_of env (fc_name fc) (tool_args_of fc) s = (Inr (''Tool error: '' @ msg), ?s0)"
    using sess call by (simp add: function_response_of_def perform_def try_except_def)
  from m obtain response w2 where
    gen: "generate_content env decls ?turns w' = (Inr response, w2)"
    unfolding model_returns_def by blast
  have "call_branch env decls query fc ft s =
      (Inr (ft @ leading_text response), ?s0\<lparr>world := w2, trace := trace ?s0 @ [Generate ?turns]\<rparr>)"
    using fr gen by (simp add: call_branch_def Let_def perform_def)
  moreover have "error_turns env sess query fc ?turns"
    unfolding error_turns_def continuation_turns_def using call by blast
  ultimately show ?thesis by simp
qed

lemma parts_loop_error:
  assumes m: "model_returns env" and t: "tool_raises env sess"
  shows "session (self s) = Some sess \<Longrightarrow>
     \<exists>ft1 s1 conts. parts_loop env decls query ps ft s = (Inr ft1, s1) \<and>
       self s1 = self s \<and>
       generate_calls (trace s1) = generate_calls (trace s) @ conts \<and>
       list_all2 (error_turns env sess query) (calls_of_parts ps) conts"
proof (induction ps arbitrary: ft s)
  case Nil
  then show ?case by simp
next
  case (Cons p ps)
  show ?case
  proof (cases "function_call p")
    case None
    with Cons.IH [OF Cons.prems, of "ft @ [part_text p]"] show ?thesis by simp
  next
    case (Some fc)
    from call_branch_error [OF m t Cons.prems, of decls query fc ft] obtain ft0 s0 turns where
      b: "call_branch env decls query fc ft s = (Inr ft0, s0)" "self s0 = self s"
        "generate_calls (trace s0) = generate_calls (trace s) @ [turns]"
        "error_turns env sess query fc turns"
      by blast
    from b(2) Cons.prems have "session (self s0) = Some sess" by simp
    from Cons.IH [OF this, of ft0] obtain ft1 s1 conts where
      l: "parts_loop env decls query ps ft0 s0 = (Inr ft1, s1)" "self s1 = self s0"
        "generate_calls (trace s1) = generate_calls (trace s0) @ conts"
        "list_all2 (error_turns env sess query) (calls_of_parts ps) conts"
      by blast
    from Some b l show ?thesis
      by (intro exI [of _ ft1] exI [of _ s1] exI [of _ "turns # conts"]) simp
  qed
qed

lemma candidates_loop_error:
  assumes m: "model_returns env" and t: "tool_raises env sess"
  shows "session (self s) = Some sess \<Longrightarrow>
     \<exists>ft1 s1 conts. candidates_loop env decls query cs ft s = (Inr ft1, s1) \<and>
       self s1 = self s \<and>
       generate_calls (trace s1) = generate_calls (trace s) @ conts \<and>
       list_all2 (error_turns env sess query) (function_calls_of \<lparr>candidates = cs\<rparr>) conts"
proof (induction cs arbitrary: ft s)
  case Nil
  then show ?case by (simp add: function_calls_of_def)
next
  case (Cons c cs)
  from parts_loop_error [OF m t Cons.prems, of decls query "content_parts c" ft]
  obtain ft0 s0 conts0 where
    b: "parts_loop env decls query (content_parts c) ft s = (Inr ft0, s0)" "self s0 = self s"
      "generate_calls (trace s0) = generate_calls (trace s) @ conts0"
      "list_all2 (error_turns env sess query) (calls_of_parts (content_parts c)) conts0"
    by blast
  from b(2) Cons.prems have "session (self s0) = Some sess" by simp
  from Cons.IH [OF this, of ft0] obtain ft1 s1 conts where
    l: "candidates_loop env decls query cs ft0 s0 = (Inr ft1, s1)" "self s1 = self s0"
      "generate_calls (trace s1) = generate_calls (trace s0) @ conts"
      "list_all2 (error_turns env sess query) (function_calls_of \<lparr>candidates = cs\<rparr>) conts"
    by blast
  from b l show ?case
    unfolding function_calls_of_Cons
    by (intro exI [of _ ft1] exI [of _ s1] exI [of _ "conts0 @ conts"])
      (simp add: list_all2_appendI)
qed

text \<open>When every model call returns and every tool call raises an \<^verbatim>\<open>Exception\<close>, the
  query returns, and the turns sent to the model carry the error texts.\<close>

lemma process_query_returns_when_tools_raise:
  assumes "self_function_declarations (self s) = Some decls"
    and "session (self s) = Some sess"
    and "\<forall>ds turns w. \<exists>response w'. generate_content env ds turns w = (Inr response, w')"
    and "\<forall>n a w. \<exists>msg w'. call_tool env sess n a w = (Inl (Exception msg), w')"
    and "generate_content env decls [UserTurn query] (world s) = (Inr response, w1)"
  shows "\<exists>final_text s1 conts.
     process_query env query s = (Inr final_text, s1) \<and>
     generate_calls (trace s1) = generate_calls (trace s) @ [UserTurn query] # conts \<and>
     list_all2
       (\<lambda>fc turns. \<exists>msg w w'.
          call_tool env sess (fc_name fc) (tool_args_of fc) w = (Inl (Exception msg), w') \<and>
          turns = [UserTurn query, ModelCallTurn (fc_name fc) (tool_args_of fc),
                   FunctionTurn (fc_name fc) (''Tool error: '' @ msg)])
       (function_calls_of response) conts"
proof -
  let ?s0 = "s\<lparr>world := w1, trace := trace s @ [Generate [UserTurn query]]\<rparr>"
  have m: "model_returns env" and t: "tool_raises env sess"
    using assms(3,4) by (simp_all add: model_returns_def tool_raises_def)
  have "session (self ?s0) = Some sess" using assms(2) by simp
  from candidates_loop_error [OF m t this, of decls query "candidates response" "[]"]
  obtain ft1 s1 conts where
    l: "candidates_loop env decls query (candidates response) [] ?s0 = (Inr ft1, s1)"
      "generate_calls (trace s1) = generate_calls (trace ?s0) @ conts"
      "list_all2 (error_turns env sess query) (function_calls_of response) conts"
    unfolding response_eta by blast
  have "process_query env query s = (Inr (join_lines ft1), s1)"
    using assms(1,5) l(1) by (simp add: process_query_def perform_def)
  moreover have "generate_calls (trace s1) = generate_calls (trace s) @ [UserTurn query] # conts"
    using l(2) by simp
  ultimately show ?thesis
    using l(3) unfolding error_turns_def [abs_def] by blast
qed

text \<open>The loops over a list in two pieces, and the branch for a function call whose tool
  call raises.\<close>

lemma parts_loop_append:
  "parts_loop env decls query (ps1 @ ps2) ft s =
     (case parts_loop env decls query ps1 ft s of
        (Inl e, s1) \<Rightarrow> (Inl e, s1)
      | (Inr ft1, s1) \<Rightarrow> parts_loop env decls query ps2 ft1 s1)"
  by (induction ps1 arbitrary: ft s) (auto split: option.splits prod.splits sum.splits)

lemma candidates_loop_append:
  "candidates_loop env decls query (cs1 @ cs2) ft s =
     (case candidates_loop env decls query cs1 ft s of
        (Inl e, s1) \<Rightarrow> (Inl e, s1)
      | (Inr ft1, s1) \<Rightarrow> candidates_loop env decls query cs2 ft1 s1)"
  by (induction cs1 arbitrary: ft s) (auto split: prod.splits sum.splits)

lemma call_branch_raises:
  assumes "session (self s) = Some sess"
    and "call_tool env sess (fc_name fc) (tool_args_of fc) (world s) = (Inl (Exception msg), w3)"
    and "generate_content env decls
           [UserTurn query, ModelCallTurn (fc_name fc) (tool_args_of fc),
            FunctionTurn (fc_name fc) (''Tool error: '' @ msg)] w3 = (answer, w4)"
    and "s4 = s\<lparr>world := w4,
                trace := trace s @
                  [CallTool sess (fc_name fc) (tool_args_of fc),
                   Generate [UserTurn query, ModelCallTurn (fc_name fc) (tool_args_of fc),
                             FunctionTurn (fc_name fc) (''Tool error: '' @ msg)]]\<rparr>"
  shows "call_branch env decls query fc ft s =
     (case answer of
        Inl e \<Rightarrow> (Inl e, s4)
      | Inr r \<Rightarrow> (Inr (ft @ leading_text r), s4))"
  using assms
  by (simp add: call_branch_def function_response_of_def perform_def try_except_def
      continuation_turns_def Let_def split: sum.splits)

text \<open>
  Claim C2 reads: when the tool call raises, no exception leaves \<^verbatim>\<open>process_query\<close>,
  the model is sent a text describing the error, and the string returned is not empty
  and holds an error indicator.  The string returned holds what the model answers to
  the error text, and nothing else: with a model that answers without a candidate it
  is empty.  And the second call of the model stands in no handler: when it raises, the
  exception leaves \<^verbatim>\<open>process_query\<close>.
\<close>

theorem process_query_error_text_counterexample:
  "call_tool (example_env ok_exit (Inr 2) (Inl (Exception ''boom'')) call_response empty_response)
      12 ''add_integers'' [(''num1'', JInt 2), (''num2'', JInt 3)] ()
     = (Inl (Exception ''boom''), ()) \<and>
   function_calls_of call_response = [add_call] \<and>
   fst (process_query
      (example_env ok_exit (Inr 2) (Inl (Exception ''boom'')) call_response empty_response)
      ''add 2 and 3'' connected) = Inr [] \<and>
   call_tool failing_model_env 12 ''add_integers'' [(''num1'', JInt 2), (''num2'', JInt 3)] ()
     = (Inl (Exception ''boom''), ()) \<and>
   fst (process_query failing_model_env ''add 2 and 3'' connected)
     = Inl (Exception ''model unavailable'')"
proof (intro conjI)
  show "call_tool (example_env ok_exit (Inr 2) (Inl (Exception ''boom'')) call_response empty_response)
      12 ''add_integers'' [(''num1'', JInt 2), (''num2'', JInt 3)] ()
     = (Inl (Exception ''boom''), ())"
    by (simp add: example_env_def)
  show "function_calls_of call_response = [add_call]"
    by (simp add: function_calls_of_def call_response_def)
  show "fst (process_query
      (example_env ok_exit (Inr 2) (Inl (Exception ''boom'')) call_response empty_response)
      ''add 2 and 3'' connected) = Inr []"
    by (simp add: eval_query_raises)
  show "call_tool failing_model_env 12 ''add_integers'' [(''num1'', JInt 2), (''num2'', JInt 3)] ()
     = (Inl (Exception ''boom''), ())"
    by (simp add: failing_model_env_def example_env_def)
  show "fst (process_query failing_model_env ''add 2 and 3'' connected)
     = Inl (Exception ''model unavailable'')"
    by (simp add: run_defs failing_model_env_def example_env_def connected_def add_call_def
        call_response_def)
qed

text \<open>
  C2, as the code has it.  Take a function call of the first response which the loops
  reach: the candidates before its candidate and the parts before it have been run
  through, with the texts collected so far.  When the session's tool call for it, made
  in the world as it is then, raises an \<^verbatim>\<open>Exception\<close> with text \<open>msg\<close>, that exception
  does not leave \<^verbatim>\<open>process_query\<close>: the model is called with the user's prompt, the call
  and the function response \<^verbatim>\<open>Tool error: \<close> followed by \<open>msg\<close>.  When this call of the
  model raises, its exception leaves \<^verbatim>\<open>process_query\<close>.  Otherwise the leading text of
  its answer, when the answer has one, is appended to the texts collected, the loops go
  on with the remaining parts and candidates, and the texts they end with are returned,
  joined by newlines.  The error text is sent to the model and is not itself put into
  the string returned.
\<close>

theorem tool_error_reaches_the_model:
  assumes "self_function_declarations (self s) = Some decls"
    and "session (self s) = Some sess"
    and "generate_content env decls [UserTurn query] (world s) = (Inr response, w0)"
    and "candidates response = cs1 @ c # cs2"
    and "content_parts c = ps1 @ p # ps2"
    and "function_call p = Some fc"
    and "candidates_loop env decls query cs1 []
           (s\<lparr>world := w0, trace := trace s @ [Generate [UserTurn query]]\<rparr>) = (Inr texts1, s1)"
    and "parts_loop env decls query ps1 texts1 s1 = (Inr texts, s2)"
    and "call_tool env sess (fc_name fc) (tool_args_of fc) (world s2) = (Inl (Exception msg), w3)"
    and "generate_content env decls
           [UserTurn query, ModelCallTurn (fc_name fc) (tool_args_of fc),
            FunctionTurn (fc_name fc) (''Tool error: '' @ msg)] w3 = (answer, w4)"
    and "s4 = s2\<lparr>world := w4,
                 trace := trace s2 @
                   [CallTool sess (fc_name fc) (tool_args_of fc),
                    Generate [UserTurn query, ModelCallTurn (fc_name fc) (tool_args_of fc),
                              FunctionTurn (fc_name fc) (''Tool error: '' @ msg)]]\<rparr>"
  shows "process_query env query s =
     (case answer of
        Inl e \<Rightarrow> (Inl e, s4)
      | Inr r \<Rightarrow>
          (case parts_loop env decls query ps2 (texts @ leading_text r) s4 of
             (Inl e, s5) \<Rightarrow> (Inl e, s5)
           | (Inr texts5, s5) \<Rightarrow>
               (case candidates_loop env decls query cs2 texts5 s5 of
                  (Inl e, s6) \<Rightarrow> (Inl e, s6)
                | (Inr texts6, s6) \<Rightarrow> (Inr (join_lines texts6), s6))))"
proof -
  let ?s0 = "s\<lparr>world := w0, trace := trace s @ [Generate [UserTurn query]]\<rparr>"
  have pq: "process_query env query s =
      (case candidates_loop env decls query (candidates response) [] ?s0 of
         (Inl e, s') \<Rightarrow> (Inl e, s')
       | (Inr ft, s') \<Rightarrow> (Inr (join_lines ft), s'))"
    using assms(1,3) by (simp add: process_query_def perform_def)
  from candidates_loop_effect [OF assms(7)] have "self s1 = self ?s0"
    by (simp add: loop_effect_def)
  moreover from parts_loop_effect [OF assms(8)] have "self s2 = self s1"
    by (simp add: loop_effect_def)
  ultimately have "session (self s2) = Some sess"
    using assms(2) by simp
  note branch = call_branch_raises [OF this assms(9) assms(10) assms(11)]
  have parts: "parts_loop env decls query (content_parts c) texts1 s1 =
      (case answer of
         Inl e \<Rightarrow> (Inl e, s4)
       | Inr r \<Rightarrow> parts_loop env decls query ps2 (texts @ leading_text r) s4)"
    unfolding assms(5) parts_loop_append assms(8)
    by (simp add: assms(6) branch split: sum.splits)
  have cands: "candidates_loop env decls query (candidates response) [] ?s0 =
      (case parts_loop env decls query (content_parts c) texts1 s1 of
         (Inl e, s') \<Rightarrow> (Inl e, s')
       | (Inr ft, s') \<Rightarrow> candidates_loop env decls query cs2 ft s')"
    unfolding assms(4) candidates_loop_append assms(7) by simp
  show ?thesis
    unfolding pq cands parts by (simp split: sum.splits prod.splits)
qed

text \<open>C2 in the example world: a text, the call whose tool raises \<^verbatim>\<open>boom\<close>, a text.  The
  model is sent \<^verbatim>\<open>Tool error: boom\<close>, and its answer stands between the two texts in the
  string returned.\<close>

theorem tool_error_reaches_the_model_witness:
  "self_function_declarations (self connected) = Some [] \<and>
   session (self connected) = Some 12 \<and>
   generate_content raising_tool_env [] [UserTurn ''add 2 and 3''] (world connected)
     = (Inr text_call_text_response, ()) \<and>
   candidates text_call_text_response
     = [] @ \<lparr>content_parts = [first_part, call_part, last_part]\<rparr> # [] \<and>
   content_parts \<lparr>content_parts = [first_part, call_part, last_part]\<rparr>
     = [first_part] @ call_part # [last_part] \<and>
   function_call call_part = Some add_call \<and>
   candidates_loop raising_tool_env [] ''add 2 and 3'' [] []
      (connected\<lparr>world := (), trace := trace connected @ [Generate [UserTurn ''add 2 and 3'']]\<rparr>)
     = (Inr [],
        connected\<lparr>world := (), trace := trace connected @ [Generate [UserTurn ''add 2 and 3'']]\<rparr>) \<and>
   parts_loop raising_tool_env [] ''add 2 and 3'' [first_part] []
      (connected\<lparr>world := (), trace := trace connected @ [Generate [UserTurn ''add 2 and 3'']]\<rparr>)
     = (Inr [''First.''],
        connected\<lparr>world := (), trace := trace connected @ [Generate [UserTurn ''add 2 and 3'']]\<rparr>) \<and>
   call_tool raising_tool_env 12 (fc_name add_call) (tool_args_of add_call) ()
     = (Inl (Exception ''boom''), ()) \<and>
   generate_content raising_tool_env []
      [UserTurn ''add 2 and 3'', ModelCallTurn (fc_name add_call) (tool_args_of add_call),
       FunctionTurn (fc_name add_call) (''Tool error: '' @ ''boom'')] ()
     = (Inr (text_response ''I could not add them.''), ()) \<and>
   process_query raising_tool_env ''add 2 and 3'' connected
     = (Inr ''First.\<newline>I could not add them.\<newline>Last.'',
        connected\<lparr>trace :=
          [Generate [UserTurn ''add 2 and 3''],
           CallTool 12 ''add_integers'' [(''num1'', JInt 2), (''num2'', JInt 3)],
           Generate [UserTurn ''add 2 and 3'',
                     ModelCallTurn ''add_integers'' [(''num1'', JInt 2), (''num2'', JInt 3)],
                     FunctionTurn ''add_integers'' ''Tool error: boom'']]\<rparr>)"
proof -
  let ?q = "''add 2 and 3''"
  let ?c = "\<lparr>content_parts = [first_part, call_part, last_part]\<rparr>"
  let ?s0 = "connected\<lparr>world := (), trace := trace connected @ [Generate [UserTurn ?q]]\<rparr>"
  have decls: "self_function_declarations (self connected) = Some []"
    and sess: "session (self connected) = Some 12"
    by (simp_all add: connected_def)
  have first: "generate_content raising_tool_env [] [UserTurn ?q] (world connected)
      = (Inr text_call_text_response, ())"
    by (simp add: raising_tool_env_def example_env_def)
  have split_c: "candidates text_call_text_response = [] @ ?c # []"
    by (simp add: text_call_text_response_def)
  have split_p: "content_parts ?c = [first_part] @ call_part # [last_part]"
    by simp
  have call: "function_call call_part = Some add_call"
    by (simp add: call_part_def)
  have before_c: "candidates_loop raising_tool_env [] ?q [] [] ?s0 = (Inr [], ?s0)"
    by simp
  have before_p: "parts_loop raising_tool_env [] ?q [first_part] [] ?s0 = (Inr [''First.''], ?s0)"
    by (simp add: first_part_def)
  have raises: "call_tool raising_tool_env 12 (fc_name add_call) (tool_args_of add_call) (world ?s0)
      = (Inl (Exception ''boom''), ())"
    by (simp add: raising_tool_env_def example_env_def)
  have answer: "generate_content raising_tool_env []
      [UserTurn ?q, ModelCallTurn (fc_name add_call) (tool_args_of add_call),
       FunctionTurn (fc_name add_call) (''Tool error: '' @ ''boom'')] ()
     = (Inr (text_response ''I could not add them.''), ())"
    by (simp add: raising_tool_env_def example_env_def)
  note run = tool_error_reaches_the_model
    [OF decls sess first split_c split_p call before_c before_p raises answer refl]
  have result: "process_query raising_tool_env ?q connected
     = (Inr ''First.\<newline>I could not add them.\<newline>Last.'',
        connected\<lparr>trace :=
          [Generate [UserTurn ?q],
           CallTool 12 ''add_integers'' [(''num1'', JInt 2), (''num2'', JInt 3)],
           Generate [UserTurn ?q,
                     ModelCallTurn ''add_integers'' [(''num1'', JInt 2), (''num2'', JInt 3)],
                     FunctionTurn ''add_integers'' ''Tool error: boom'']]\<rparr>)"
    unfolding run
    by (simp add: text_response_def leading_text_def last_part_def add_call_def tool_args_of_def
        connected_def)
  have raises': "call_tool raising_tool_env 12 (fc_name add_call) (tool_args_of add_call) ()
      = (Inl (Exception ''boom''), ())"
    using raises by simp
  show ?thesis
    by (intro conjI)
      (rule decls sess first split_c split_p call before_c before_p raises' answer result)+
qed

end
